theory Spec2Isabelle
  imports Main
begin

section \<open>The JavaScript platform functions that migrateToken.js calls\<close>

text \<open>
  The script runs on Node.js. The functions of the runtime that decide a property of the
  script are written out here: \<^verbatim>\<open>String.prototype.split\<close>, \<^verbatim>\<open>Number\<close>,
  \<^verbatim>\<open>Buffer.from(s, 'base64')\<close>, \<^verbatim>\<open>buf.toString('utf-8')\<close> and \<^verbatim>\<open>Buffer.from(s)\<close>.
  A byte is a natural number below 256. A JavaScript string that holds text decoded from
  UTF-8 is the list of its Unicode code points (\<open>js_text\<close>); identifiers, URLs and console
  lines are \<open>string\<close>.
\<close>

type_synonym byte = nat
type_synonym js_text = "nat list"

subsection \<open>split\<close>

text \<open>
  \<^verbatim>\<open>s.split(',')\<close>: the pieces of \<open>s\<close> between the commas. The empty string has one
  piece, the empty string.
\<close>

fun js_split :: "char \<Rightarrow> string \<Rightarrow> string list" where
  "js_split sep [] = [[]]"
| "js_split sep (c # cs) =
     (if c = sep then [] # js_split sep cs
      else (case js_split sep cs of
              [] \<Rightarrow> [[c]]
            | piece # pieces \<Rightarrow> (c # piece) # pieces))"

text \<open>\<^verbatim>\<open>xs.join(sep)\<close>.\<close>

fun js_join :: "string \<Rightarrow> string list \<Rightarrow> string" where
  "js_join sep [] = []"
| "js_join sep [x] = x"
| "js_join sep (x # y # ys) = x @ sep @ js_join sep (y # ys)"

subsection \<open>Numbers\<close>

text \<open>
  A JavaScript number is an IEEE 754 double: not a number, an infinity, the negative zero,
  or \<open>Num m k\<close>, the double \<open>m / 2 ^ k\<close>, written with \<open>k = 0\<close> or \<open>m\<close> odd. An
  integer \<open>n\<close> that is a double is \<open>Num n 0\<close>.
\<close>

datatype js_number = NaN | PosInfinity | NegInfinity | NegZero | Num int nat

text \<open>
  A field of a JSON response, as the script reads it: absent (\<^verbatim>\<open>undefined\<close>),
  \<^verbatim>\<open>null\<close>, a boolean, a number or a string. The mirror node serves \<^verbatim>\<open>max_supply\<close> as
  a string; a character of a string is a code unit below 256.
\<close>

datatype json = JUndefined | JNull | JBool bool | JNum js_number | JStr string

fun js_negate :: "js_number \<Rightarrow> js_number" where
  "js_negate NaN = NaN"
| "js_negate PosInfinity = NegInfinity"
| "js_negate NegInfinity = PosInfinity"
| "js_negate NegZero = Num 0 0"
| "js_negate (Num m k) = (if m = 0 then NegZero else Num (- m) k)"

text \<open>\<^verbatim>\<open>x > 0\<close> on a number: false for \<^verbatim>\<open>NaN\<close> and for both zeros.\<close>

fun js_gt0 :: "js_number \<Rightarrow> bool" where
  "js_gt0 NaN = False"
| "js_gt0 PosInfinity = True"
| "js_gt0 NegInfinity = False"
| "js_gt0 NegZero = False"
| "js_gt0 (Num m k) = (0 < m)"

text \<open>
  The double nearest to the positive rational \<open>N / D\<close>, ties to the even significand: the
  significand has 53 bits, the least exponent of the last bit is -1074 (subnormal numbers),
  and a result of 2^1024 or more is infinite.
\<close>

function floor_log2 :: "nat \<Rightarrow> nat" where
  "floor_log2 n = (if n < 2 then 0 else Suc (floor_log2 (n div 2)))"
  by pat_completeness auto
termination
  by (relation "measure id") auto

declare floor_log2.simps [simp del]

text \<open>The integer \<open>f\<close> with \<open>2 ^ f \<le> N / D < 2 ^ (f + 1)\<close>.\<close>

definition floor_log2_ratio :: "nat \<Rightarrow> nat \<Rightarrow> int" where
  "floor_log2_ratio N D =
     (let k = int (floor_log2 N) - int (floor_log2 D)
      in if (if 0 \<le> k then D * 2 ^ nat k \<le> N else D \<le> N * 2 ^ nat (- k)) then k else k - 1)"

fun canonical :: "int \<Rightarrow> nat \<Rightarrow> js_number" where
  "canonical m 0 = Num m 0"
| "canonical m (Suc k) = (if even m then canonical (m div 2) k else Num m (Suc k))"

definition round_to_double :: "nat \<Rightarrow> nat \<Rightarrow> js_number" where
  "round_to_double N D =
     (let e = max (floor_log2_ratio N D - 52) (- 1074);
          N' = (if 0 \<le> e then N else N * 2 ^ nat (- e));
          D' = (if 0 \<le> e then D * 2 ^ nat e else D);
          q = N' div D';
          r = N' mod D';
          m = (if D' < 2 * r \<or> (2 * r = D' \<and> odd q) then q + 1 else q)
      in if 971 < e \<or> (e = 971 \<and> 2 ^ 53 \<le> m) then PosInfinity
         else if 0 \<le> e then Num (int (m * 2 ^ nat e)) 0
         else canonical (int m) (nat (- e)))"

text \<open>
  \<^verbatim>\<open>Number(s)\<close> for a string (StringToNumber): white space around the literal is
  dropped; the empty string is 0; a literal is \<^verbatim>\<open>0b\<close>, \<^verbatim>\<open>0o\<close> or \<^verbatim>\<open>0x\<close> with digits
  of that radix, or an optionally signed \<^verbatim>\<open>Infinity\<close> or decimal literal with an
  optional fraction and exponent; every other string is \<^verbatim>\<open>NaN\<close>. The value of the
  literal is rounded to a double.
\<close>

definition is_digit :: "char \<Rightarrow> bool" where
  "is_digit c = (48 \<le> (of_char c :: nat) \<and> (of_char c :: nat) \<le> 57)"

definition is_space :: "char \<Rightarrow> bool" where
  "is_space c = ((of_char c :: nat) \<in> {9, 10, 11, 12, 13, 32, 160})"

definition js_trim :: "string \<Rightarrow> string" where
  "js_trim s = rev (dropWhile is_space (rev (dropWhile is_space s)))"

definition digits_value :: "string \<Rightarrow> nat" where
  "digits_value ds = foldl (\<lambda>acc c. 10 * acc + ((of_char c :: nat) - 48)) 0 ds"

text \<open>The value of a digit of the radix \<open>r\<close>, and of a non-empty run of them.\<close>

definition digit_of :: "nat \<Rightarrow> char \<Rightarrow> nat option" where
  "digit_of r c =
     (let n = (of_char c :: nat);
          v = (if 48 \<le> n \<and> n \<le> 57 then n - 48
               else if 97 \<le> n \<and> n \<le> 102 then n - 87
               else if 65 \<le> n \<and> n \<le> 70 then n - 55
               else r)
      in if v < r then Some v else None)"

definition radix_value :: "nat \<Rightarrow> string \<Rightarrow> nat option" where
  "radix_value r ds =
     (if ds \<noteq> [] \<and> list_all (\<lambda>c. digit_of r c \<noteq> None) ds
      then Some (foldl (\<lambda>acc c. r * acc + the (digit_of r c)) 0 ds)
      else None)"

text \<open>The exponent part: absent, or \<^verbatim>\<open>e\<close> or \<^verbatim>\<open>E\<close> with optionally signed digits.\<close>

definition exponent_part :: "string \<Rightarrow> int option" where
  "exponent_part s =
     (case s of
        [] \<Rightarrow> Some 0
      | c # r \<Rightarrow>
          if c = CHR ''e'' \<or> c = CHR ''E'' then
            (case r of
               [] \<Rightarrow> None
             | d # r' \<Rightarrow>
                 if d = CHR ''+'' then map_option int (radix_value 10 r')
                 else if d = CHR ''-'' then map_option (\<lambda>n. - int n) (radix_value 10 r')
                 else map_option int (radix_value 10 r))
          else None)"

text \<open>
  An unsigned decimal literal as its digits and its power of ten: the literal is
  \<open>m * 10 ^ e\<close>.
\<close>

definition unsigned_decimal :: "string \<Rightarrow> (nat \<times> int) option" where
  "unsigned_decimal u =
     (let ip = takeWhile is_digit u; r1 = dropWhile is_digit u
      in case r1 of
           [] \<Rightarrow> if ip = [] then None else Some (digits_value ip, 0)
         | c # r2 \<Rightarrow>
             if c = CHR ''.'' then
               (let fp = takeWhile is_digit r2; r3 = dropWhile is_digit r2
                in if ip = [] \<and> fp = [] then None
                   else map_option (\<lambda>e. (digits_value (ip @ fp), e - int (length fp)))
                          (exponent_part r3))
             else if ip = [] then None
             else map_option (\<lambda>e. (digits_value ip, e)) (exponent_part r1))"

definition decimal_to_double :: "nat \<Rightarrow> int \<Rightarrow> js_number" where
  "decimal_to_double m e =
     (if m = 0 then Num 0 0
      else if 0 \<le> e then round_to_double (m * 10 ^ nat e) 1
      else round_to_double m (10 ^ nat (- e)))"

definition unsigned_to_number :: "string \<Rightarrow> js_number" where
  "unsigned_to_number u =
     (if u = ''Infinity'' then PosInfinity
      else case unsigned_decimal u of
             None \<Rightarrow> NaN
           | Some (m, e) \<Rightarrow> decimal_to_double m e)"

definition radix_prefix :: "char \<Rightarrow> nat option" where
  "radix_prefix c =
     (if c = CHR ''b'' \<or> c = CHR ''B'' then Some 2
      else if c = CHR ''o'' \<or> c = CHR ''O'' then Some 8
      else if c = CHR ''x'' \<or> c = CHR ''X'' then Some 16
      else None)"

definition string_to_number :: "string \<Rightarrow> js_number" where
  "string_to_number s =
     (case js_trim s of
        [] \<Rightarrow> Num 0 0
      | c # cs \<Rightarrow>
          if c = CHR ''+'' then unsigned_to_number cs
          else if c = CHR ''-'' then js_negate (unsigned_to_number cs)
          else (case (if c = CHR ''0'' then (case cs of [] \<Rightarrow> None | x # ds \<Rightarrow> map_option (\<lambda>r. (r, ds)) (radix_prefix x)) else None) of
                  Some (r, ds) \<Rightarrow>
                    (case radix_value r ds of
                       None \<Rightarrow> NaN
                     | Some n \<Rightarrow> if n = 0 then Num 0 0 else round_to_double n 1)
                | None \<Rightarrow> unsigned_to_number (c # cs)))"

fun Number_js :: "json \<Rightarrow> js_number" where
  "Number_js JUndefined = NaN"
| "Number_js JNull = Num 0 0"
| "Number_js (JBool b) = Num (if b then 1 else 0) 0"
| "Number_js (JNum x) = x"
| "Number_js (JStr s) = string_to_number s"

definition digit_char :: "nat \<Rightarrow> char" where
  "digit_char d = char_of (48 + d)"

function show_nat :: "nat \<Rightarrow> string" where
  "show_nat n = (if n < 10 then [digit_char n] else show_nat (n div 10) @ [digit_char (n mod 10)])"
  by pat_completeness auto
termination
  by (relation "measure id") auto

declare show_nat.simps [simp del]

text \<open>A JSON field inside a template literal.\<close>

fun js_to_string :: "json \<Rightarrow> string" where
  "js_to_string JUndefined = ''undefined''"
| "js_to_string JNull = ''null''"
| "js_to_string (JBool b) = (if b then ''true'' else ''false'')"
| "js_to_string (JStr s) = s"

subsection \<open>Buffers\<close>

text \<open>
  \<^verbatim>\<open>Buffer.from(s, 'base64')\<close>. Node's decoder accepts the standard and the URL-safe
  alphabet, skips every character outside them and stops at the first \<^verbatim>\<open>=\<close>; a
  well-formed base64 string decodes as in RFC 4648.
\<close>

definition unbase64 :: "char \<Rightarrow> nat option" where
  "unbase64 c =
     (let n = (of_char c :: nat) in
      if 65 \<le> n \<and> n \<le> 90 then Some (n - 65)
      else if 97 \<le> n \<and> n \<le> 122 then Some (n - 71)
      else if 48 \<le> n \<and> n \<le> 57 then Some (n + 4)
      else if n = 43 \<or> n = 45 then Some 62
      else if n = 47 \<or> n = 95 then Some 63
      else None)"

fun base64_groups :: "nat list \<Rightarrow> byte list" where
  "base64_groups (a # b # c # d # rest) =
     (a * 4 + b div 16) # ((b mod 16) * 16 + c div 4) # ((c mod 4) * 64 + d) # base64_groups rest"
| "base64_groups [a, b, c] = [a * 4 + b div 16, (b mod 16) * 16 + c div 4]"
| "base64_groups [a, b] = [a * 4 + b div 16]"
| "base64_groups _ = []"

definition Buffer_from_base64 :: "string \<Rightarrow> byte list" where
  "Buffer_from_base64 s =
     base64_groups (List.map_filter unbase64 (takeWhile (\<lambda>c. c \<noteq> CHR ''='') s))"

text \<open>
  \<^verbatim>\<open>buf.toString('utf-8')\<close>: the UTF-8 decoder of the runtime. A well-formed sequence
  gives its code point; a byte that cannot start or continue a well-formed sequence ends
  the sequence before it, and every such maximal ill-formed part gives one U+FFFD.
\<close>

definition is_cont :: "byte \<Rightarrow> bool" where
  "is_cont b = (128 \<le> b \<and> b \<le> 191)"

text \<open>The range of the second byte after the lead byte \<open>b\<close> of a 3- or 4-byte sequence.\<close>

definition second_ok :: "byte \<Rightarrow> byte \<Rightarrow> bool" where
  "second_ok b c =
     (if b = 224 then 160 \<le> c \<and> c \<le> 191
      else if b = 237 then 128 \<le> c \<and> c \<le> 159
      else if b = 240 then 144 \<le> c \<and> c \<le> 191
      else if b = 244 then 128 \<le> c \<and> c \<le> 143
      else is_cont c)"

fun toString_utf8 :: "byte list \<Rightarrow> js_text" where
  "toString_utf8 [] = []"
| "toString_utf8 (b # bs) =
     (if b < 128 then b # toString_utf8 bs
      else if 194 \<le> b \<and> b \<le> 223 then
        (case bs of
           [] \<Rightarrow> [65533]
         | c # r \<Rightarrow>
             if is_cont c then ((b - 192) * 64 + (c - 128)) # toString_utf8 r
             else 65533 # toString_utf8 bs)
      else if 224 \<le> b \<and> b \<le> 239 then
        (case bs of
           [] \<Rightarrow> [65533]
         | c # r \<Rightarrow>
             if second_ok b c then
               (case r of
                  [] \<Rightarrow> [65533]
                | d # r' \<Rightarrow>
                    if is_cont d
                    then ((b - 224) * 4096 + (c - 128) * 64 + (d - 128)) # toString_utf8 r'
                    else 65533 # toString_utf8 r)
             else 65533 # toString_utf8 bs)
      else if 240 \<le> b \<and> b \<le> 244 then
        (case bs of
           [] \<Rightarrow> [65533]
         | c # r \<Rightarrow>
             if second_ok b c then
               (case r of
                  [] \<Rightarrow> [65533]
                | d # r' \<Rightarrow>
                    if is_cont d then
                      (case r' of
                         [] \<Rightarrow> [65533]
                       | e # r'' \<Rightarrow>
                           if is_cont e
                           then ((b - 240) * 262144 + (c - 128) * 4096 + (d - 128) * 64 + (e - 128))
                                  # toString_utf8 r''
                           else 65533 # toString_utf8 r')
                    else 65533 # toString_utf8 r)
             else 65533 # toString_utf8 bs)
      else 65533 # toString_utf8 bs)"

text \<open>
  \<^verbatim>\<open>Buffer.from(s)\<close>: the UTF-8 encoding of a string. A lone surrogate is encoded as
  U+FFFD.
\<close>

definition utf8_encode_cp :: "nat \<Rightarrow> byte list" where
  "utf8_encode_cp c =
     (if c < 128 then [c]
      else if c < 2048 then [192 + c div 64, 128 + c mod 64]
      else if 55296 \<le> c \<and> c \<le> 57343 then [239, 191, 189]
      else if c < 65536 then [224 + c div 4096, 128 + (c div 64) mod 64, 128 + c mod 64]
      else [240 + c div 262144, 128 + (c div 4096) mod 64, 128 + (c div 64) mod 64, 128 + c mod 64])"

definition Buffer_from :: "js_text \<Rightarrow> byte list" where
  "Buffer_from s = concat (map utf8_encode_cp s)"

text \<open>Well-formed UTF-8 (Unicode, table 3-7), as a check on a byte sequence.\<close>

fun utf8_valid :: "byte list \<Rightarrow> bool" where
  "utf8_valid [] = True"
| "utf8_valid (b # bs) =
     (if b < 128 then utf8_valid bs
      else if 194 \<le> b \<and> b \<le> 223 then
        (case bs of c # r \<Rightarrow> is_cont c \<and> utf8_valid r | _ \<Rightarrow> False)
      else if 224 \<le> b \<and> b \<le> 239 then
        (case bs of c # d # r \<Rightarrow> second_ok b c \<and> is_cont d \<and> utf8_valid r | _ \<Rightarrow> False)
      else if 240 \<le> b \<and> b \<le> 244 then
        (case bs of
           c # d # e # r \<Rightarrow> second_ok b c \<and> is_cont d \<and> is_cont e \<and> utf8_valid r
         | _ \<Rightarrow> False)
      else False)"

section \<open>migrateToken.js\<close>

subsection \<open>Data\<close>

datatype js_error = TypeError string | Error string | RequestError string | StatusError string

text \<open>The body of \<^verbatim>\<open>GET /api/v1/tokens/{id}\<close>, with the fields \<^verbatim>\<open>getTokenDetails\<close> copies.\<close>

record custom_fees_json =
  royalty_fees :: "json list option"
  fixed_fees :: "json list option"

record token_details =
  symbol :: string
  name :: string
  max_supply :: json
  type :: string
  custom_fees :: "custom_fees_json option"
  memo :: string

text \<open>One entry of \<^verbatim>\<open>nfts\<close> in a page of \<^verbatim>\<open>GET /api/v1/tokens/{id}/nfts\<close>, and the page.\<close>

record nft =
  serial_number :: nat
  nft_metadata :: string
  deleted :: bool

record page =
  nfts :: "nft list"
  links_next :: "string option"

text \<open>
  The mirror node answers a request for a URL; the answer may depend on how many requests
  were made before (the first argument), so that a failure can be transient or persistent.
  \<open>Inl\<close> is a failed request (transport error or error status).
\<close>

record mirror =
  token_info :: "nat \<Rightarrow> string \<Rightarrow> js_error + token_details"
  nfts_page :: "nat \<Rightarrow> string \<Rightarrow> js_error + page"

text \<open>The transactions of the SDK that the script builds.\<close>

datatype supply_type = Finite | Infinite

record custom_royalty_fee =
  numerator :: "nat option"
  denominator :: "nat option"
  feeCollectorAccountId :: "string option"
  fallbackFee :: "nat option"

record token_create_tx =
  tokenName :: string
  tokenSymbol :: string
  tokenMemo :: string
  initialSupply :: nat
  treasuryAccountId :: string
  autoRenewAccountId :: string
  supplyKey :: string
  maxTransactionFee :: nat
  maxSupply :: "js_number option"
  supplyType :: "supply_type option"
  customFees :: "custom_royalty_fee list"

text \<open>
  A mint carries the token and the metadata payloads, a burn the token and the serials.
  Every mint has the fee cap \<open>MAX_TX_FEE\<close>, and every mint and burn is signed with
  \<open>SUPPLY_KEY\<close>.
\<close>

datatype tx =
  TokenCreateTransaction token_create_tx
| TokenMintTransaction string "byte list list"
| TokenBurnTransaction string "nat list"

record receipt =
  rx_tokenId :: string
  rx_serials :: "nat list"
  rx_status :: string

text \<open>
  The testnet answers a transaction, given the transactions executed before it:
  \<^verbatim>\<open>execute\<close> rejects, or \<^verbatim>\<open>getReceipt\<close> rejects, or there is a receipt.
\<close>

datatype tx_result = ExecuteFailed js_error | ReceiptFailed js_error | Receipt receipt

type_synonym ledger = "tx list \<Rightarrow> tx \<Rightarrow> tx_result"

text \<open>The process: how \<^verbatim>\<open>main\<close> stands, and what it has done to the outside.\<close>

datatype status = Running | Rejected js_error | Exited nat

datatype console_line =
  console_log string
| console_log_obj js_error
| console_error string
| console_error_obj js_error

record world =
  status :: status
  gets :: nat
  executed :: "tx list"
  console :: "console_line list"
  key_file :: "string list option"

record config =
  testnetOperatorId :: string
  SUPPLY_KEY :: string

definition MIRROR_NODE :: string where
  "MIRROR_NODE = ''https://mainnet-public.mirrornode.hedera.com''"

definition MAX_TX_FEE :: nat where
  "MAX_TX_FEE = 80"

definition batchSize :: nat where
  "batchSize = 10"

definition log :: "console_line \<Rightarrow> world \<Rightarrow> world" where
  "log l w = w\<lparr>console := console w @ [l]\<rparr>"

subsection \<open>getTokenDetails\<close>

definition getTokenDetails :: "mirror \<Rightarrow> string \<Rightarrow> world \<Rightarrow> token_details option \<times> world" where
  "getTokenDetails M tokenId w =
     (let url = MIRROR_NODE @ ''/api/v1/tokens/'' @ tokenId;
          w' = w\<lparr>gets := gets w + 1\<rparr>
      in case token_info M (gets w) url of
           Inl err \<Rightarrow> (None, log (console_error_obj err) w')
         | Inr jsonResponse \<Rightarrow> (Some jsonResponse, w'))"

subsection \<open>The token creation request (lines 69 to 107)\<close>

definition new_CustomRoyaltyFee :: custom_royalty_fee where
  "new_CustomRoyaltyFee =
     \<lparr>numerator = None, denominator = None, feeCollectorAccountId = None, fallbackFee = None\<rparr>"

definition custom_fee :: "config \<Rightarrow> custom_fees_json \<Rightarrow> custom_royalty_fee option" where
  "custom_fee cfg cf =
     (let fee1 =
            (if royalty_fees cf \<noteq> None
             then Some (new_CustomRoyaltyFee\<lparr>numerator := Some 1, denominator := Some 100,
                          feeCollectorAccountId := Some (testnetOperatorId cfg)\<rparr>)
             else None)
      in if fixed_fees cf \<noteq> None
         then Some ((case fee1 of
                       None \<Rightarrow> new_CustomRoyaltyFee\<lparr>feeCollectorAccountId := Some (testnetOperatorId cfg)\<rparr>
                     | Some fee \<Rightarrow> fee)\<lparr>fallbackFee := Some 1\<rparr>)
         else fee1)"

definition tokenCreateTx :: "config \<Rightarrow> token_details \<Rightarrow> token_create_tx" where
  "tokenCreateTx cfg tokenDetails =
     (let tx0 = \<lparr>tokenName = name tokenDetails, tokenSymbol = symbol tokenDetails,
                 tokenMemo = memo tokenDetails, initialSupply = 0,
                 treasuryAccountId = testnetOperatorId cfg,
                 autoRenewAccountId = testnetOperatorId cfg,
                 supplyKey = SUPPLY_KEY cfg, maxTransactionFee = MAX_TX_FEE,
                 maxSupply = None, supplyType = None, customFees = []\<rparr>;
          tx1 = (if js_gt0 (Number_js (max_supply tokenDetails))
                 then tx0\<lparr>maxSupply := Some (Number_js (max_supply tokenDetails)),
                          supplyType := Some Finite\<rparr>
                 else tx0\<lparr>supplyType := Some Infinite\<rparr>)
      in case custom_fees tokenDetails of
           None \<Rightarrow> tx1
         | Some cf \<Rightarrow>
             (case custom_fee cfg cf of
                None \<Rightarrow> tx1
              | Some fee \<Rightarrow> tx1\<lparr>customFees := [fee]\<rparr>))"

subsection \<open>The inventory (lines 122 to 153)\<close>

record inventory =
  serials :: "nat list"
  metadata :: "js_text list"
  deleteIds :: "bool list"

definition empty_inventory :: inventory where
  "empty_inventory = \<lparr>serials = [], metadata = [], deleteIds = []\<rparr>"

text \<open>The body of the loop over the records of a page: three pushes.\<close>

definition push_nft :: "inventory \<Rightarrow> nft \<Rightarrow> inventory" where
  "push_nft arr r =
     arr\<lparr>serials := serials arr @ [serial_number r],
         metadata := metadata arr @ [toString_utf8 (Buffer_from_base64 (nft_metadata r))],
         deleteIds := deleteIds arr @ [deleted r]\<rparr>"

text \<open>
  One turn of the do-while loop: the request for \<open>route\<close>, and the new route, inventory
  and world. A failed request is logged and changes nothing else.
\<close>

definition fetch_page ::
  "mirror \<Rightarrow> string \<Rightarrow> inventory \<Rightarrow> world \<Rightarrow> string option \<times> inventory \<times> world" where
  "fetch_page M route arr w =
     (let url = MIRROR_NODE @ route;
          w' = w\<lparr>gets := gets w + 1\<rparr>
      in case nfts_page M (gets w) url of
           Inl err \<Rightarrow> (Some route, arr, log (console_error_obj err) w')
         | Inr jsonResponse \<Rightarrow> (links_next jsonResponse, foldl push_nft arr (nfts jsonResponse), w'))"

text \<open>The loop runs while the route is not null; it has no other exit.\<close>

partial_function (option) fetch_loop ::
  "mirror \<Rightarrow> string \<Rightarrow> inventory \<Rightarrow> world \<Rightarrow> (inventory \<times> world) option" where
  "fetch_loop M route arr w =
     (case fetch_page M route arr w of
        (None, arr', w') \<Rightarrow> Some (arr', w')
      | (Some route', arr', w') \<Rightarrow> fetch_loop M route' arr' w')"

definition reverse_inventory :: "inventory \<Rightarrow> inventory" where
  "reverse_inventory arr =
     arr\<lparr>serials := rev (serials arr), metadata := rev (metadata arr),
         deleteIds := rev (deleteIds arr)\<rparr>"

subsection \<open>Minting in batches, with the burns (lines 155 to 203)\<close>

text \<open>\<^verbatim>\<open>xs.slice(i, j)\<close> for \<open>i \<le> j\<close>.\<close>

definition js_slice :: "'a list \<Rightarrow> nat \<Rightarrow> nat \<Rightarrow> 'a list" where
  "js_slice xs i j = take (j - i) (drop i xs)"

text \<open>
  The inner loop over \<open>j\<close>, bounded by \<open>i + batchSize\<close> and by the length \<open>n\<close> of
  \<open>serials\<close>: it adds \<open>Buffer.from(metadata[j])\<close> to the mint. \<open>Buffer.from\<close> throws
  a TypeError on \<^verbatim>\<open>undefined\<close>, which an index beyond \<open>metadata\<close> reads.
\<close>

function addMetadata_loop ::
  "js_text list \<Rightarrow> nat \<Rightarrow> nat \<Rightarrow> nat \<Rightarrow> byte list list \<Rightarrow> js_error + byte list list" where
  "addMetadata_loop md n i j payload =
     (if j < i + batchSize \<and> j < n
      then (if j < length md
            then addMetadata_loop md n i (j + 1) (payload @ [Buffer_from (md ! j)])
            else Inl (TypeError ''The first argument must be of type string''))
      else Inr payload)"
  by pat_completeness auto
termination
  by (relation "measure (\<lambda>(md, n, i, j, payload). n - j)") auto

declare addMetadata_loop.simps [simp del]

text \<open>
  \<^verbatim>\<open>serialSlice.filter((serial, index) => deleteSlice[index])\<close>: the serials of the slice
  whose flag in the slice of \<open>deleteIds\<close> is true; an index beyond \<open>deleteSlice\<close> reads
  \<^verbatim>\<open>undefined\<close> and is dropped.
\<close>

definition toDelete :: "inventory \<Rightarrow> nat \<Rightarrow> nat list" where
  "toDelete arr i =
     (let deleteSlice = js_slice (deleteIds arr) i (i + batchSize);
          serialSlice = js_slice (serials arr) i (i + batchSize)
      in map fst (filter snd (zip serialSlice deleteSlice)))"

definition burn :: "ledger \<Rightarrow> string \<Rightarrow> nat list \<Rightarrow> world \<Rightarrow> world" where
  "burn L newToken del w =
     (let deleteTx = TokenBurnTransaction newToken del;
          w' = w\<lparr>executed := executed w @ [deleteTx]\<rparr>
      in case L (executed w) deleteTx of
           ExecuteFailed e \<Rightarrow> w'\<lparr>status := Rejected e\<rparr>
         | ReceiptFailed e \<Rightarrow>
             (log (console_log ''Token Burn **FAILED**'') (log (console_log_obj e) w'))
               \<lparr>status := Exited 1\<rparr>
         | Receipt deleteReceipt \<Rightarrow>
             log (console_log (''Burnt '' @ show_nat (length del) @ '' NFTs [''
                    @ js_join '', '' (map show_nat del) @ '']: '' @ rx_status deleteReceipt)) w')"

text \<open>The body of the outer loop for the batch that starts at \<open>i\<close>.\<close>

definition mint_batch :: "ledger \<Rightarrow> string \<Rightarrow> inventory \<Rightarrow> nat \<Rightarrow> world \<Rightarrow> world" where
  "mint_batch L newToken arr i w =
     (case addMetadata_loop (metadata arr) (length (serials arr)) i i [] of
        Inl e \<Rightarrow> w\<lparr>status := Rejected e\<rparr>
      | Inr payload \<Rightarrow>
          (let mintTx = TokenMintTransaction newToken payload;
               w' = w\<lparr>executed := executed w @ [mintTx]\<rparr>
           in case L (executed w) mintTx of
                ExecuteFailed e \<Rightarrow> w'\<lparr>status := Rejected e\<rparr>
              | ReceiptFailed e \<Rightarrow>
                  (log (console_log ''Token Mint **FAILED**'') (log (console_log_obj e) w'))
                    \<lparr>status := Exited 1\<rparr>
              | Receipt mintReceipt \<Rightarrow>
                  (let w1 = log (console_log (''Minted ''
                              @ show_nat (length (rx_serials mintReceipt)) @ '' NFTs'')) w'
                   in if length (toDelete arr i) > 0 then burn L newToken (toDelete arr i) w1
                      else w1)))"

function mint_loop :: "ledger \<Rightarrow> string \<Rightarrow> inventory \<Rightarrow> nat \<Rightarrow> world \<Rightarrow> world" where
  "mint_loop L newToken arr i w =
     (if i < length (serials arr)
      then (let w' = mint_batch L newToken arr i w
            in if status w' = Running then mint_loop L newToken arr (i + batchSize) w' else w')
      else w)"
  by pat_completeness auto
termination
  by (relation "measure (\<lambda>(L, newToken, arr, i, w). length (serials arr) - i)")
     (auto simp: batchSize_def)

declare mint_loop.simps [simp del]

subsection \<open>One token (the body of the loop of lines 56 to 206)\<close>

text \<open>After the token is created: fetch the inventory, reverse it, mint and burn.\<close>

definition migrate_nfts ::
  "mirror \<Rightarrow> ledger \<Rightarrow> string \<Rightarrow> string \<Rightarrow> string list \<Rightarrow> world \<Rightarrow> (string list \<times> world) option" where
  "migrate_nfts M L token newToken strOutput w =
     (case fetch_loop M (''/api/v1/tokens/'' @ token @ ''/nfts?limit=100'') empty_inventory w of
        None \<Rightarrow> None
      | Some (arr, w1) \<Rightarrow>
          (let w2 = log (console_log (''Found '' @ show_nat (length (serials arr))
                          @ '' NFTs to migrate'')) w1;
               w3 = mint_loop L newToken (reverse_inventory arr) 0 w2
           in if status w3 = Running
              then Some (strOutput @ [''Mainnet Token '' @ token @ '' migrated to Testnet '' @ newToken], w3)
              else Some (strOutput, w3)))"

definition migrate_token ::
  "config \<Rightarrow> mirror \<Rightarrow> ledger \<Rightarrow> string \<Rightarrow> string list \<Rightarrow> world \<Rightarrow> (string list \<times> world) option" where
  "migrate_token cfg M L token strOutput w =
     (case getTokenDetails M token w of
        (None, w1) \<Rightarrow>
          Some (strOutput, log (console_error (''Token '' @ token @ '' not found on mirror node'')) w1)
      | (Some tokenDetails, w1) \<Rightarrow>
          if type tokenDetails \<noteq> ''NON_FUNGIBLE_UNIQUE''
          then Some (strOutput, log (console_error (''Token '' @ token
                 @ '' is not an NFT. Only NFTs are not supported for migration'')) w1)
          else
            (let w2 = log (console_log (''Migrating token '' @ token @ '' named ''
                        @ name tokenDetails @ '' with symbol '' @ symbol tokenDetails
                        @ '' and supply '' @ js_to_string (max_supply tokenDetails))) w1;
                 createTx = TokenCreateTransaction (tokenCreateTx cfg tokenDetails);
                 w3 = w2\<lparr>executed := executed w2 @ [createTx]\<rparr>
             in case L (executed w2) createTx of
                  ExecuteFailed e \<Rightarrow> Some (strOutput, w3\<lparr>status := Rejected e\<rparr>)
                | ReceiptFailed e \<Rightarrow>
                    Some (strOutput,
                      (log (console_log ''Token Create **FAILED*'') (log (console_log_obj e) w3))
                        \<lparr>status := Exited 1\<rparr>)
                | Receipt createTokenRx \<Rightarrow>
                    migrate_nfts M L token (rx_tokenId createTokenRx) strOutput
                      (log (console_log (''Token '' @ token @ '' created with ID ''
                         @ rx_tokenId createTokenRx)) w3)))"

text \<open>The loop over the token list; it stops when the process has exited or main has thrown.\<close>

fun token_loop ::
  "config \<Rightarrow> mirror \<Rightarrow> ledger \<Rightarrow> string list \<Rightarrow> string list \<Rightarrow> world \<Rightarrow> (string list \<times> world) option" where
  "token_loop cfg M L [] strOutput w = Some (strOutput, w)"
| "token_loop cfg M L (token # rest) strOutput w =
     (case migrate_token cfg M L token strOutput w of
        None \<Rightarrow> None
      | Some (strOutput', w') \<Rightarrow>
          if status w' = Running then token_loop cfg M L rest strOutput' w'
          else Some (strOutput', w'))"

subsection \<open>main and the script\<close>

text \<open>
  The environment of the process: the three variables the script reads, and the key that
  \<^verbatim>\<open>PrivateKey.generate()\<close> returns. Account identifiers and keys are kept as their
  strings.
\<close>

record env =
  ACCOUNT_ID :: "string option"
  PRIVATE_KEY :: "string option"
  SUPPLY_KEY_var :: "string option"
  generated_key :: string

text \<open>\<^verbatim>\<open>process.env.SUPPLY_KEY\<close> as a condition: set and not empty.\<close>

definition truthy :: "string option \<Rightarrow> bool" where
  "truthy v = (case v of None \<Rightarrow> False | Some s \<Rightarrow> s \<noteq> [])"

text \<open>
  \<^verbatim>\<open>saveKeyToFile\<close> writes the token list and the supply key to a file named after the
  time of day. The world keeps the token list it was called with; the callbacks of the
  write, which run later and only print, are left out.
\<close>

definition saveKeyToFile :: "string list \<Rightarrow> world \<Rightarrow> world" where
  "saveKeyToFile tokens w = w\<lparr>key_file := Some tokens\<rparr>"

text \<open>\<^verbatim>\<open>process.argv[2]\<close>: \<^verbatim>\<open>undefined\<close> when there are fewer than three entries.\<close>

definition argv2 :: "string list \<Rightarrow> string option" where
  "argv2 argv = (if 2 < length argv then Some (argv ! 2) else None)"

text \<open>The error of \<^verbatim>\<open>undefined.split(',')\<close>.\<close>

definition split_of_undefined :: js_error where
  "split_of_undefined =
     TypeError (''Cannot read properties of undefined (reading '' @ [CHR 0x27] @ ''split''
                 @ [CHR 0x27] @ '')'')"

definition main ::
  "env \<Rightarrow> config \<Rightarrow> string list \<Rightarrow> mirror \<Rightarrow> ledger \<Rightarrow> world \<Rightarrow> world option" where
  "main e cfg argv M L w =
     (if ''-h'' \<in> set argv
      then Some (log (console_log ''tokenList: a comma separated list of token IDs to migrate to testnet'')
                  (log (console_log ''Usage: node migrateToken.js <tokenList>'') w))
      else case argv2 argv of
        None \<Rightarrow> Some (w\<lparr>status := Rejected split_of_undefined\<rparr>)
      | Some arg \<Rightarrow>
          (let tokenList = js_split CHR '','' arg
           in if length tokenList = 0 then Some (w\<lparr>status := Rejected (Error ''Token list is empty'')\<rparr>)
              else
                (let w1 = (if \<not> truthy (SUPPLY_KEY_var e)
                           then saveKeyToFile tokenList
                                  (log (console_log ''No supply key provided. Generating a new one and saving it to file'') w)
                           else w)
                 in case token_loop cfg M L tokenList [] w1 of
                      None \<Rightarrow> None
                    | Some (strOutput, w2) \<Rightarrow>
                        if status w2 = Running
                        then Some (log (console_log (js_join [CHR 0x0A] strOutput))
                                    (log (console_log ''Migration complete'') w2))
                        else Some w2)))"

text \<open>
  The SDK is outside the script. What the script needs of it before \<^verbatim>\<open>main\<close> is a
  parameter: \<^verbatim>\<open>AccountId.fromString\<close> and \<^verbatim>\<open>PrivateKey.fromStringED25519\<close> return
  the identifier or key (kept as a string) or throw, and the client that line 29 opens and
  no line closes may hold the process open after \<^verbatim>\<open>main\<close> has settled.
\<close>

record sdk =
  AccountId_fromString :: "string \<Rightarrow> js_error + string"
  PrivateKey_fromStringED25519 :: "string \<Rightarrow> js_error + string"
  client_holds_process :: bool

text \<open>
  How the process ends: with an exit status, or not by itself (\<open>Alive\<close>: the open client
  keeps it running).
\<close>

datatype ending = Exit nat | Alive

record outcome =
  ending :: ending
  final :: world

definition initial_world :: world where
  "initial_world = \<lparr>status = Running, gets = 0, executed = [], console = [], key_file = None\<rparr>"

text \<open>An error thrown at the top level of the script is uncaught: exit status 1.\<close>

definition uncaught :: "js_error \<Rightarrow> outcome" where
  "uncaught err = \<lparr>ending = Exit 1, final = initial_world\<lparr>status := Rejected err\<rparr>\<rparr>"

text \<open>
  The script, lines 19 to 32 and 262 to 264: the check of the two variables; the parsing
  of the operator's identifier and key; the supply key, parsed from its variable when that
  is set and not empty, and generated otherwise; then \<^verbatim>\<open>main().catch(console.error)\<close>.
  A rejection of \<^verbatim>\<open>main\<close> is logged by the handler; \<^verbatim>\<open>process.exit(1)\<close> inside
  \<^verbatim>\<open>main\<close> ends the process with status 1; when \<^verbatim>\<open>main\<close> has returned or its
  rejection is logged, nothing ends the process but the emptying of the event loop.
  \<open>None\<close> is a run in which \<^verbatim>\<open>main\<close> never settles.
\<close>

definition settled :: "sdk \<Rightarrow> ending" where
  "settled S = (if client_holds_process S then Alive else Exit 0)"

definition script :: "sdk \<Rightarrow> env \<Rightarrow> string list \<Rightarrow> mirror \<Rightarrow> ledger \<Rightarrow> outcome option" where
  "script S e argv M L =
     (case (ACCOUNT_ID e, PRIVATE_KEY e) of
        (Some account, Some key) \<Rightarrow>
          (case AccountId_fromString S account of
             Inl err \<Rightarrow> Some (uncaught err)
           | Inr testnetOperatorId' \<Rightarrow>
               (case PrivateKey_fromStringED25519 S key of
                  Inl err \<Rightarrow> Some (uncaught err)
                | Inr testnetOperatorKey \<Rightarrow>
                    (case (case SUPPLY_KEY_var e of
                             None \<Rightarrow> Inr (generated_key e)
                           | Some s \<Rightarrow> if s \<noteq> [] then PrivateKey_fromStringED25519 S s
                                      else Inr (generated_key e)) of
                       Inl err \<Rightarrow> Some (uncaught err)
                     | Inr supply_key \<Rightarrow>
                         (case main e \<lparr>testnetOperatorId = testnetOperatorId',
                                       SUPPLY_KEY = supply_key\<rparr> argv M L initial_world of
                            None \<Rightarrow> None
                          | Some w \<Rightarrow>
                              (case status w of
                                 Running \<Rightarrow> Some \<lparr>ending = settled S, final = w\<rparr>
                               | Rejected err \<Rightarrow>
                                   Some \<lparr>ending = settled S, final = log (console_error_obj err) w\<rparr>
                               | Exited n \<Rightarrow> Some \<lparr>ending = Exit n, final = w\<rparr>)))))
      | _ \<Rightarrow>
          Some (uncaught
                 (Error ''Environment variables OPERATOR_ID and OPERATOR_KEY must be present'')))"

section \<open>Properties\<close>

subsection \<open>Notions used in the statements\<close>

text \<open>
  The inventory holds the records \<open>rs\<close>, in this order: each of the three sequences is
  the image of \<open>rs\<close>, so they have one length and entry \<open>i\<close> of each comes from record
  \<open>i\<close>.
\<close>

definition received :: "nft list \<Rightarrow> inventory \<Rightarrow> bool" where
  "received rs arr =
     (serials arr = map serial_number rs
      \<and> metadata arr = map (\<lambda>r. toString_utf8 (Buffer_from_base64 (nft_metadata r))) rs
      \<and> deleteIds arr = map deleted rs)"

fun is_mint :: "tx \<Rightarrow> bool" where
  "is_mint (TokenMintTransaction t p) = True"
| "is_mint _ = False"

fun is_burn :: "tx \<Rightarrow> bool" where
  "is_burn (TokenBurnTransaction t p) = True"
| "is_burn _ = False"

text \<open>
  The indices \<open>j\<close> that the inner loop of the batch starting at \<open>i\<close> visits, for
  \<open>serials\<close> of length \<open>n\<close>, and the payloads it adds.
\<close>

definition batch_indices :: "nat \<Rightarrow> nat \<Rightarrow> nat list" where
  "batch_indices n i = [i ..< min (i + batchSize) n]"

definition batch_payload :: "inventory \<Rightarrow> nat \<Rightarrow> byte list list" where
  "batch_payload arr i =
     map (\<lambda>j. Buffer_from (metadata arr ! j)) (batch_indices (length (serials arr)) i)"

text \<open>
  The burn set as the specification words it: of the serials that the mint of a batch was
  given by the network, those at the positions whose deletion flag is true.
\<close>

definition minted_flagged :: "nat list \<Rightarrow> bool list \<Rightarrow> nat list" where
  "minted_flagged new_serials flags = map fst (filter snd (zip new_serials flags))"

text \<open>The payloads of the mints of a token among some transactions, in order.\<close>

fun mint_payloads :: "string \<Rightarrow> tx list \<Rightarrow> byte list list" where
  "mint_payloads tok [] = []"
| "mint_payloads tok (TokenMintTransaction t p # xs) =
     (if t = tok then p else []) @ mint_payloads tok xs"
| "mint_payloads tok (_ # xs) = mint_payloads tok xs"

text \<open>
  The script reaches \<^verbatim>\<open>main\<close>: the two required variables are set, and the SDK accepts the
  operator's identifier, the operator's key and, when it is set and not empty, the supply
  key.
\<close>

definition starts :: "sdk \<Rightarrow> env \<Rightarrow> bool" where
  "starts S e =
     (case (ACCOUNT_ID e, PRIVATE_KEY e) of
        (Some account, Some key) \<Rightarrow>
          \<not> isl (AccountId_fromString S account)
          \<and> \<not> isl (PrivateKey_fromStringED25519 S key)
          \<and> (case SUPPLY_KEY_var e of
                None \<Rightarrow> True
              | Some s \<Rightarrow> s = [] \<or> \<not> isl (PrivateKey_fromStringED25519 S s))
      | _ \<Rightarrow> False)"

subsection \<open>Example inputs\<close>

text \<open>
  A testnet that confirms every transaction and numbers the NFTs of a token consecutively
  from 1, in the order of the payloads.
\<close>

fun minted :: "string \<Rightarrow> tx list \<Rightarrow> nat" where
  "minted tok [] = 0"
| "minted tok (TokenMintTransaction t p # h) = (if t = tok then length p else 0) + minted tok h"
| "minted tok (_ # h) = minted tok h"

definition testnet :: ledger where
  "testnet h t =
     (case t of
        TokenCreateTransaction c \<Rightarrow>
          Receipt \<lparr>rx_tokenId = ''0.0.5005'', rx_serials = [], rx_status = ''SUCCESS''\<rparr>
      | TokenMintTransaction tok p \<Rightarrow>
          Receipt \<lparr>rx_tokenId = tok,
                   rx_serials = [minted tok h + 1 ..< minted tok h + 1 + length p],
                   rx_status = ''SUCCESS''\<rparr>
      | TokenBurnTransaction tok del \<Rightarrow>
          Receipt \<lparr>rx_tokenId = tok, rx_serials = [], rx_status = ''SUCCESS''\<rparr>)"

text \<open>A mirror node that is down, and one that knows the token 0.0.111 with no NFTs.\<close>

definition mirror_down :: mirror where
  "mirror_down =
     \<lparr>token_info = (\<lambda>t url. Inl (RequestError ''ECONNREFUSED'')),
      nfts_page = (\<lambda>t url. Inl (RequestError ''ECONNREFUSED''))\<rparr>"

definition foo_details :: token_details where
  "foo_details =
     \<lparr>symbol = ''FOO'', name = ''Foo'', max_supply = JStr ''0'', type = ''NON_FUNGIBLE_UNIQUE'',
      custom_fees = None, memo = []\<rparr>"

definition mirror_foo :: mirror where
  "mirror_foo =
     \<lparr>token_info = (\<lambda>t url. if url = MIRROR_NODE @ ''/api/v1/tokens/0.0.111''
                              then Inr foo_details else Inl (StatusError ''404'')),
      nfts_page = (\<lambda>t url. Inr \<lparr>nfts = [], links_next = None\<rparr>)\<rparr>"

text \<open>
  An environment with the operator's account and an ED25519 key in its DER form, and an
  SDK that parses them; its client holds the process open.
\<close>

definition operator_key :: string where
  "operator_key =
     ''302e020100300506032b657004220420'' @
     ''db484b828e64b2d8f12ce3c0a0e93a0b8cce7af1bb8f39c97732394482538e10''"

definition supply_key_text :: string where
  "supply_key_text =
     ''302e020100300506032b657004220420'' @
     ''91132178e72057a1d7528025956fe39b0b847f200ab59b2fdd367017f3087137''"

definition env_ok :: env where
  "env_ok =
     \<lparr>ACCOUNT_ID = Some ''0.0.2'', PRIVATE_KEY = Some operator_key,
      SUPPLY_KEY_var = Some supply_key_text, generated_key = operator_key\<rparr>"

definition sdk_ok :: sdk where
  "sdk_ok =
     \<lparr>AccountId_fromString =
        (\<lambda>s. if s = ''0.0.2'' then Inr s else Inl (Error ''failed to parse entity id'')),
      PrivateKey_fromStringED25519 =
        (\<lambda>s. if s = operator_key \<or> s = supply_key_text then Inr s
             else Inl (Error ''invalid private key'')),
      client_holds_process = True\<rparr>"

definition cfg_ok :: config where
  "cfg_ok = \<lparr>testnetOperatorId = ''0.0.2'', SUPPLY_KEY = supply_key_text\<rparr>"

text \<open>A descriptor whose maximum supply is 5000.\<close>

definition capped_details :: token_details where
  "capped_details =
     \<lparr>symbol = ''CAP'', name = ''Capped'', max_supply = JStr ''5000'',
      type = ''NON_FUNGIBLE_UNIQUE'', custom_fees = None, memo = []\<rparr>"

text \<open>A descriptor whose maximum supply is 2^53 + 1.\<close>

definition big_details :: token_details where
  "big_details =
     \<lparr>symbol = ''BIG'', name = ''Big'', max_supply = JStr ''9007199254740993'',
      type = ''NON_FUNGIBLE_UNIQUE'', custom_fees = None, memo = []\<rparr>"

text \<open>
  Inventories: 25 records, none deleted; two records with serials 1 and 2, the second
  deleted; one deleted record with serial 5.
\<close>

definition inventory25 :: inventory where
  "inventory25 =
     \<lparr>serials = [1 ..< 26], metadata = replicate 25 [104, 105], deleteIds = replicate 25 False\<rparr>"

definition inventory2 :: inventory where
  "inventory2 =
     \<lparr>serials = [1, 2], metadata = [[104, 105], [104, 105]], deleteIds = [False, True]\<rparr>"

definition inventory5 :: inventory where
  "inventory5 = \<lparr>serials = [5], metadata = [[104, 105]], deleteIds = [True]\<rparr>"

definition nft_ff :: nft where
  "nft_ff = \<lparr>serial_number = 1, nft_metadata = ''/w=='', deleted = False\<rparr>"

definition nft_hi :: nft where
  "nft_hi = \<lparr>serial_number = 2, nft_metadata = ''aGk='', deleted = True\<rparr>"

text \<open>A mirror node that serves the two records of a token in one page, the newer first.\<close>

definition mirror_pair :: mirror where
  "mirror_pair =
     \<lparr>token_info = (\<lambda>t url. Inr foo_details),
      nfts_page = (\<lambda>t url. Inr \<lparr>nfts = [nft_hi, nft_ff], links_next = None\<rparr>)\<rparr>"

section \<open>Lemmas\<close>

subsection \<open>Numbers: decimal digits\<close>

lemma floor_log2_bounds: "0 < n \<Longrightarrow> 2 ^ floor_log2 n \<le> n \<and> n < 2 ^ Suc (floor_log2 n)"
proof (induction n rule: floor_log2.induct)
  case (1 n)
  show ?case
  proof (cases "n < 2")
    case True
    then have "n = 1" using "1.prems" by simp
    then show ?thesis by (subst floor_log2.simps, subst floor_log2.simps) simp
  next
    case False
    then have h: "0 < n div 2" by simp
    have e: "floor_log2 n = Suc (floor_log2 (n div 2))"
      using False by (subst floor_log2.simps) simp
    from "1.IH"[OF False h] have a: "2 ^ floor_log2 (n div 2) \<le> n div 2"
      and b: "n div 2 < 2 ^ Suc (floor_log2 (n div 2))" by simp_all
    have "2 * 2 ^ floor_log2 (n div 2) \<le> n" using a by linarith
    moreover have "n < 2 * 2 ^ Suc (floor_log2 (n div 2))" using b by linarith
    ultimately show ?thesis unfolding e by simp
  qed
qed

lemma floor_log2_less: "0 < n \<Longrightarrow> n < 2 ^ k \<Longrightarrow> floor_log2 n < k"
proof -
  assume a: "0 < n" "n < 2 ^ k"
  have "(2::nat) ^ floor_log2 n < 2 ^ k" using floor_log2_bounds[OF a(1)] a(2) by linarith
  then show ?thesis by simp
qed

lemma floor_log2_power: "floor_log2 (2 ^ k) = k"
proof -
  have p: "0 < (2::nat) ^ k" by simp
  from floor_log2_bounds[OF p] have "(2::nat) ^ floor_log2 (2 ^ k) \<le> 2 ^ k"
    and "(2::nat) ^ k < 2 ^ Suc (floor_log2 (2 ^ k))" by blast+
  then have "floor_log2 (2 ^ k) \<le> k" "k < Suc (floor_log2 (2 ^ k))"
    using power_less_imp_less_exp[of 2 k "Suc (floor_log2 (2 ^ k))"] by simp_all
  then show ?thesis by simp
qed

lemma floor_log2_ratio_1: "0 < n \<Longrightarrow> floor_log2_ratio n 1 = int (floor_log2 n)"
proof -
  assume a: "0 < n"
  have o: "floor_log2 (Suc 0) = 0" by (subst floor_log2.simps) simp
  show ?thesis using floor_log2_bounds[OF a] by (simp add: floor_log2_ratio_def o Let_def)
qed

lemma canonical_shift: "canonical (m * 2 ^ j) j = Num m 0"
  by (induction j) simp_all

lemma round_to_double_exact:
  assumes "0 < n" "n \<le> 2 ^ 53"
  shows "round_to_double n 1 = Num (int n) 0"
proof (cases "n = 2 ^ 53")
  case True
  have f: "floor_log2_ratio n 1 = 53"
    using floor_log2_ratio_1[OF assms(1)] floor_log2_power[of 53] True by simp
  show ?thesis unfolding round_to_double_def f using True by (simp add: Let_def)
next
  case False
  then have l: "n < 2 ^ 53" using assms(2) by simp
  define f where "f = floor_log2 n"
  have fl: "f < 53" unfolding f_def by (rule floor_log2_less[OF assms(1) l])
  have fr: "floor_log2_ratio n 1 = int f" unfolding f_def by (rule floor_log2_ratio_1[OF assms(1)])
  show ?thesis
  proof (cases "f = 52")
    case True
    then show ?thesis unfolding round_to_double_def fr by (simp add: Let_def)
  next
    case False
    then have lt: "f < 52" using fl by simp
    have e: "max (int f - 52) (- 1074) = int f - 52" by simp
    have ne: "\<not> 0 \<le> int f - 52" using lt by simp
    have j: "nat (52 - int f) = 52 - f" using lt by simp
    have c: "canonical (int (n * 2 ^ (52 - f))) (52 - f) = Num (int n) 0"
      using canonical_shift[of "int n" "52 - f"] by simp
    show ?thesis unfolding round_to_double_def fr e using ne lt c
      by (simp add: Let_def j)
  qed
qed

lemma digit_not_space: "is_digit c \<Longrightarrow> \<not> is_space c"
  by (auto simp: is_digit_def is_space_def)

lemma digit_no_prefix: "is_digit c \<Longrightarrow> radix_prefix c = None"
  by (auto simp: is_digit_def radix_prefix_def)

lemma digit_no_sign: "is_digit c \<Longrightarrow> c \<noteq> CHR ''+'' \<and> c \<noteq> CHR ''-''"
  by (auto simp: is_digit_def)

lemma digits_trim:
  assumes "ds \<noteq> []" "list_all is_digit ds"
  shows "js_trim ds = ds"
proof -
  obtain c cs where d: "ds = c # cs" using assms(1) by (cases ds) auto
  have a: "dropWhile is_space ds = ds"
    using assms(2) unfolding d by (simp add: digit_not_space)
  obtain x xs where r: "rev ds = x # xs" using assms(1) by (cases "rev ds") auto
  have "x \<in> set ds" using r by (metis list.set_intros(1) set_rev)
  then have "is_digit x" using assms(2) by (simp add: list_all_iff)
  then have b: "dropWhile is_space (rev ds) = rev ds" unfolding r by (simp add: digit_not_space)
  show ?thesis unfolding js_trim_def a b by simp
qed

lemma digits_unsigned:
  assumes "ds \<noteq> []" "list_all is_digit ds"
  shows "unsigned_decimal ds = Some (digits_value ds, 0)"
proof -
  have t: "takeWhile is_digit ds = ds" using assms(2) by (simp add: list_all_iff takeWhile_eq_all_conv)
  have d: "dropWhile is_digit ds = []" using assms(2) by (simp add: list_all_iff)
  show ?thesis unfolding unsigned_decimal_def t d using assms(1) by (simp add: Let_def)
qed

lemma digits_decimal:
  assumes "ds \<noteq> []" "list_all is_digit ds"
  shows "string_to_number ds = decimal_to_double (digits_value ds) 0"
proof -
  obtain c cs where d: "ds = c # cs" using assms(1) by (cases ds) auto
  have c: "is_digit c" using assms(2) unfolding d by simp
  have i: "ds \<noteq> ''Infinity''" using assms(2) by (auto simp: is_digit_def)
  have u: "unsigned_to_number ds = decimal_to_double (digits_value ds) 0"
    unfolding unsigned_to_number_def digits_unsigned[OF assms(1,2)] using i by simp
  have pre: "(if c = CHR ''0'' then (case cs of [] \<Rightarrow> None | x # ds \<Rightarrow> map_option (\<lambda>r. (r, ds)) (radix_prefix x)) else None) = None"
  proof (cases cs)
    case Nil then show ?thesis by simp
  next
    case (Cons x r)
    then have "is_digit x" using assms(2) unfolding d by simp
    then show ?thesis using Cons by (simp add: digit_no_prefix)
  qed
  show ?thesis
    unfolding string_to_number_def digits_trim[OF assms(1,2)]
    using digit_no_sign[OF c] pre u unfolding d by simp
qed

lemma digits_number:
  assumes "ds \<noteq> []" "list_all is_digit ds" "digits_value ds \<le> 2 ^ 53"
  shows "string_to_number ds = Num (int (digits_value ds)) 0"
proof (cases "digits_value ds = 0")
  case True
  then show ?thesis unfolding digits_decimal[OF assms(1,2)] by (simp add: decimal_to_double_def)
next
  case False
  then have p: "0 < digits_value ds" by simp
  show ?thesis unfolding digits_decimal[OF assms(1,2)] using False
    by (simp add: decimal_to_double_def round_to_double_exact[OF p assms(3), unfolded One_nat_def])
qed

lemma floor_log2_unique: "2 ^ k \<le> n \<Longrightarrow> n < 2 ^ Suc k \<Longrightarrow> floor_log2 n = k"
proof -
  assume a: "2 ^ k \<le> n" "n < 2 ^ Suc k"
  then have p: "0 < n" by (metis gr0I not_le zero_less_numeral zero_less_power)
  from floor_log2_bounds[OF p] a have "(2::nat) ^ floor_log2 n < 2 ^ Suc k" "(2::nat) ^ k < 2 ^ Suc (floor_log2 n)"
    by linarith+
  then have "floor_log2 n < Suc k" "k < Suc (floor_log2 n)"
    using power_less_imp_less_exp[of 2 "floor_log2 n" "Suc k"] power_less_imp_less_exp[of 2 k "Suc (floor_log2 n)"]
    by simp_all
  then show ?thesis by simp
qed

lemma digits_9007199254740993: "digits_value ''9007199254740993'' = 9007199254740993"
  by (simp add: digits_value_def)

lemma round_9007199254740993: "round_to_double 9007199254740993 1 = Num 9007199254740992 0"
proof -
  have f: "floor_log2 9007199254740993 = 53" by (rule floor_log2_unique) simp_all
  have r: "floor_log2_ratio 9007199254740993 1 = 53"
    using floor_log2_ratio_1[of 9007199254740993] f by simp
  show ?thesis unfolding round_to_double_def r by (simp add: Let_def)
qed

lemma number_9007199254740993: "string_to_number ''9007199254740993'' = Num 9007199254740992 0"
proof -
  have a: "''9007199254740993'' \<noteq> []" by simp
  have b: "list_all is_digit ''9007199254740993''" by (simp add: is_digit_def)
  show ?thesis
    unfolding digits_decimal[OF a b] digits_9007199254740993
    using round_9007199254740993 by (simp add: decimal_to_double_def)
qed

lemma number_0: "string_to_number ''0'' = Num 0 0"
  using digits_number[of "''0''"] by (simp add: is_digit_def digits_value_def)

lemma number_unlimited: "string_to_number ''unlimited'' = NaN"
  by code_simp

subsection \<open>UTF-8: decoding and encoding again\<close>

lemma dm2: "y < 64 \<Longrightarrow> (x * 64 + y) div 64 = (x::nat) \<and> (x * 64 + y) mod 64 = y"
  by simp

lemma dm3:
  assumes "y < 64" "z < 64"
  shows "(x * 4096 + y * 64 + z) div 4096 = (x::nat) \<and> ((x * 4096 + y * 64 + z) div 64) mod 64 = y
  \<and> (x * 4096 + y * 64 + z) mod 64 = z"
proof -
  have h: "x * 4096 + y * 64 + z = (x * 64 + y) * 64 + z" by simp
  have m: "(x * 4096 + y * 64 + z) mod 64 = z" unfolding h using dm2[OF assms(2)] by blast
  have d: "(x * 4096 + y * 64 + z) div 64 = x * 64 + y" unfolding h using dm2[OF assms(2)] by blast
  have d2: "(x * 4096 + y * 64 + z) div 4096 = (x * 64 + y) div 64"
    using d div_mult2_eq[of "x * 4096 + y * 64 + z" 64 64] by simp
  show ?thesis using m d d2 dm2[OF assms(1), of x] by simp
qed

lemma dm4:
  assumes "y < 64" "z < 64" "u < 64"
  shows "(x * 262144 + y * 4096 + z * 64 + u) div 262144 = (x::nat)
  \<and> ((x * 262144 + y * 4096 + z * 64 + u) div 4096) mod 64 = y
  \<and> ((x * 262144 + y * 4096 + z * 64 + u) div 64) mod 64 = z
  \<and> (x * 262144 + y * 4096 + z * 64 + u) mod 64 = u"
proof -
  let ?n = "x * 262144 + y * 4096 + z * 64 + u"
  have h: "?n = (x * 4096 + y * 64 + z) * 64 + u" by simp
  have m: "?n mod 64 = u" unfolding h using dm2[OF assms(3)] by blast
  have d: "?n div 64 = x * 4096 + y * 64 + z" unfolding h using dm2[OF assms(3)] by blast
  have d2: "?n div 4096 = (x * 4096 + y * 64 + z) div 64"
    using d div_mult2_eq[of ?n 64 64] by simp
  have d3: "?n div 262144 = (x * 4096 + y * 64 + z) div 4096"
    using d div_mult2_eq[of ?n 64 4096] by simp
  show ?thesis using m d d2 d3 dm3[OF assms(1,2), of x] by simp
qed

lemma enc2: 
  assumes "194 \<le> b" "b \<le> 223" "is_cont c"
  shows "utf8_encode_cp ((b - 192) * 64 + (c - 128)) = [b, c]"
proof -
  define x y where "x = b - 192" and "y = c - 128"
  have b: "b = 192 + x" and c: "c = 128 + y" and x: "2 \<le> x" "x < 32" and y: "y < 64"
    using assms unfolding is_cont_def x_def y_def by auto
  have r: "128 \<le> x * 64 + y" "x * 64 + y < 2048" using x y by auto
  show ?thesis using r dm2[OF y, of x] unfolding b c utf8_encode_cp_def by simp
qed

lemma enc3: 
  assumes "224 \<le> b" "b \<le> 239" "second_ok b c" "is_cont d"
  shows "utf8_encode_cp ((b - 224) * 4096 + (c - 128) * 64 + (d - 128)) = [b, c, d]"
proof -
  define x y z where "x = b - 224" and "y = c - 128" and "z = d - 128"
  have b: "b = 224 + x" and c: "c = 128 + y" and d: "d = 128 + z" 
    and x: "x < 16" and y: "y < 64" and z: "z < 64"
    and lo: "x = 0 \<longrightarrow> 32 \<le> y" and hi: "x = 13 \<longrightarrow> y < 32"
    using assms unfolding is_cont_def second_ok_def x_def y_def z_def by (auto split: if_splits)
  have r1: "2048 \<le> x * 4096 + y * 64 + z" using lo by (cases "x = 0") auto
  have r2: "x * 4096 + y * 64 + z < 65536" using x y z by auto
  have r3: "\<not> (55296 \<le> x * 4096 + y * 64 + z \<and> x * 4096 + y * 64 + z \<le> 57343)"
  proof -
    consider "x < 13" | "x = 13" | "13 < x" by linarith
    then show ?thesis using hi y z by cases auto
  qed
  show ?thesis using r1 r2 r3 dm3[OF y z, of x] unfolding b c d utf8_encode_cp_def by simp
qed

lemma enc4: 
  assumes "240 \<le> b" "b \<le> 244" "second_ok b c" "is_cont d" "is_cont e"
  shows "utf8_encode_cp ((b - 240) * 262144 + (c - 128) * 4096 + (d - 128) * 64 + (e - 128)) = [b, c, d, e]"
proof -
  define x y z u where "x = b - 240" and "y = c - 128" and "z = d - 128" and "u = e - 128"
  have b: "b = 240 + x" and c: "c = 128 + y" and d: "d = 128 + z" and e: "e = 128 + u"
    and x: "x < 5" and y: "y < 64" and z: "z < 64" and u: "u < 64"
    and lo: "x = 0 \<longrightarrow> 16 \<le> y"
    using assms unfolding is_cont_def second_ok_def x_def y_def z_def u_def by (auto split: if_splits)
  have r: "65536 \<le> x * 262144 + y * 4096 + z * 64 + u" 
    using lo by (cases "x = 0") auto
  show ?thesis using r dm4[OF y z u, of x] unfolding b c d e utf8_encode_cp_def by simp
qed

lemma roundtrip_valid: "utf8_valid bs \<Longrightarrow> Buffer_from (toString_utf8 bs) = bs"
proof (induction bs rule: utf8_valid.induct)
  case 1 show ?case by (simp add: Buffer_from_def)
next
  case (2 b bs)
  consider (a) "b < 128" | (b) "194 \<le> b" "b \<le> 223" | (c) "224 \<le> b" "b \<le> 239" | (d) "240 \<le> b" "b \<le> 244"
    using "2.prems" by (auto split: if_splits) 
  then show ?case
  proof cases
    case a
    with 2 show ?thesis by (simp add: Buffer_from_def utf8_encode_cp_def)
  next
    case b
    then obtain c r where bs: "bs = c # r" and c: "is_cont c" and v: "utf8_valid r"
      using "2.prems" by (auto split: list.splits)
    have "Buffer_from (toString_utf8 r) = r" using "2.IH"(2) b bs v by simp
    then show ?thesis using b bs c enc2[OF b c] by (simp add: Buffer_from_def)
  next
    case c
    then obtain c1 d r where bs: "bs = c1 # d # r" and c1: "second_ok b c1" and d: "is_cont d" and v: "utf8_valid r"
      using "2.prems" by (auto split: list.splits)
    have "Buffer_from (toString_utf8 r) = r" using "2.IH"(3) c bs v by simp
    then show ?thesis using c bs c1 d enc3[OF c c1 d] by (simp add: Buffer_from_def)
  next
    case d
    then obtain c1 d1 e r where bs: "bs = c1 # d1 # e # r" and c1: "second_ok b c1" and d1: "is_cont d1" 
       and e: "is_cont e" and v: "utf8_valid r"
      using "2.prems" by (auto split: list.splits)
    have "Buffer_from (toString_utf8 r) = r" using "2.IH"(4) d bs v by simp
    then show ?thesis using d bs c1 d1 e enc4[OF d c1 d1 e] by (simp add: Buffer_from_def)
  qed
qed

lemma decomp3: "(c::nat) = (c div 4096) * 4096 + ((c div 64) mod 64) * 64 + c mod 64"
proof -
  have a: "c = (c div 64) * 64 + c mod 64" by simp
  have b: "c div 64 = (c div 64 div 64) * 64 + (c div 64) mod 64" by simp
  have d: "c div 4096 = c div 64 div 64" using div_mult2_eq[of c 64 64] by simp
  show ?thesis using a b d by linarith
qed

lemma decomp4: "(c::nat) = (c div 262144) * 262144 + ((c div 4096) mod 64) * 4096 + ((c div 64) mod 64) * 64 + c mod 64"
proof -
  have a: "c = (c div 4096) * 4096 + ((c div 64) mod 64) * 64 + c mod 64" by (rule decomp3)
  have b: "c div 4096 = (c div 4096 div 64) * 64 + (c div 4096) mod 64" by simp
  have d: "c div 262144 = c div 4096 div 64" using div_mult2_eq[of c 4096 64] by simp
  show ?thesis using a b d by linarith
qed

lemma valid_enc_cp:
  assumes "c < 1114112"
  shows "utf8_valid (utf8_encode_cp c @ bs) = utf8_valid bs"
proof -
  consider (a) "c < 128" | (b) "128 \<le> c" "c < 2048" | (s) "55296 \<le> c" "c \<le> 57343"
    | (c3) "2048 \<le> c" "c < 65536" "\<not> (55296 \<le> c \<and> c \<le> 57343)" | (c4) "65536 \<le> c"
    by linarith
  then show ?thesis
  proof cases
    case a then show ?thesis by (simp add: utf8_encode_cp_def)
  next
    case b
    have "2 \<le> c div 64" "c div 64 < 32" "c mod 64 \<le> 63" using b by auto
    then show ?thesis using b by (simp add: utf8_encode_cp_def is_cont_def)
  next
    case s then show ?thesis by (simp add: utf8_encode_cp_def is_cont_def second_ok_def)
  next
    case c3
    define x y z where "x = c div 4096" and "y = (c div 64) mod 64" and "z = c mod 64"
    have c: "c = x * 4096 + y * 64 + z" unfolding x_def y_def z_def by (rule decomp3)
    have y: "y < 64" and z: "z < 64" unfolding y_def z_def by auto
    have x: "x < 16" using c3(2) c by linarith
    have lo: "x = 0 \<Longrightarrow> 32 \<le> y" using c3(1) c z by auto
    have hi: "x = 13 \<Longrightarrow> y < 32" using c3(3) c z y by auto
    have so: "second_ok (224 + x) (128 + y)" 
      unfolding second_ok_def is_cont_def using lo hi x y by auto
    have e: "utf8_encode_cp c = [224 + x, 128 + y, 128 + z]"
      using c3 unfolding utf8_encode_cp_def x_def y_def z_def by auto
    show ?thesis unfolding e using so x z by (simp add: is_cont_def)
  next
    case c4
    define x y z u where "x = c div 262144" and "y = (c div 4096) mod 64" and "z = (c div 64) mod 64" and "u = c mod 64"
    have c: "c = x * 262144 + y * 4096 + z * 64 + u" unfolding x_def y_def z_def u_def by (rule decomp4)
    have y: "y < 64" and z: "z < 64" and u: "u < 64" unfolding y_def z_def u_def by auto
    have x: "x < 5" using assms c by linarith
    have lo: "x = 0 \<Longrightarrow> 16 \<le> y" using c4 c z u by auto
    have hi: "x = 4 \<Longrightarrow> y < 16" using assms c by auto
    have so: "second_ok (240 + x) (128 + y)" 
      unfolding second_ok_def is_cont_def using lo hi x y by auto
    have e: "utf8_encode_cp c = [240 + x, 128 + y, 128 + z, 128 + u]"
      using c4 unfolding utf8_encode_cp_def x_def y_def z_def u_def by simp
    show ?thesis unfolding e using so x z u by (simp add: is_cont_def)
  qed
qed

lemma valid_Buffer_from: "list_all (\<lambda>c. c < 1114112) t \<Longrightarrow> utf8_valid (Buffer_from t)"
  by (induction t) (simp_all add: Buffer_from_def valid_enc_cp)

lemma second_ok_le: "second_ok b c \<Longrightarrow> c \<le> 191"
  unfolding second_ok_def is_cont_def by (auto split: if_splits)

lemma dec2_lt: "b \<le> 223 \<Longrightarrow> is_cont c \<Longrightarrow> (b - 192) * 64 + (c - 128) < 1114112"
  unfolding is_cont_def by auto

lemma dec3_lt: "b \<le> 239 \<Longrightarrow> second_ok b c \<Longrightarrow> is_cont d \<Longrightarrow>
   (b - 224) * 4096 + (c - 128) * 64 + (d - 128) < 1114112"
  using second_ok_le[of b c] unfolding is_cont_def by auto

lemma dec4_lt: 
  assumes "b \<le> 244" "second_ok b c" "is_cont d" "is_cont e"
  shows "(b - 240) * 262144 + (c - 128) * 4096 + (d - 128) * 64 + (e - 128) < 1114112"
proof (cases "b = 244")
  case True
  then have "c \<le> 143" using assms(2) unfolding second_ok_def by simp
  then show ?thesis using True assms(3,4) unfolding is_cont_def by auto
next
  case False
  then have "b - 240 \<le> 3" using assms(1) by auto
  then show ?thesis using second_ok_le[OF assms(2)] assms(3,4) unfolding is_cont_def by auto
qed

lemma toString_utf8_range: "list_all (\<lambda>c. c < 1114112) (toString_utf8 bs)"
  by (induction bs rule: toString_utf8.induct)
     (auto simp: dec2_lt dec3_lt dec4_lt split: list.splits)

lemma roundtrip_iff: "Buffer_from (toString_utf8 bs) = bs \<longleftrightarrow> utf8_valid bs"
  using roundtrip_valid[of bs] valid_Buffer_from[OF toString_utf8_range, of bs] by auto

subsection \<open>The inventory loop\<close>

lemma fetch_page_failed:
  "nfts_page M (gets w) (MIRROR_NODE @ route) = Inl err \<Longrightarrow>
   fetch_page M route arr w = (Some route, arr, log (console_error_obj err) (w\<lparr>gets := gets w + 1\<rparr>))"
  by (simp add: fetch_page_def)

lemma gets_log: "gets (log l w) = gets w"
  by (simp add: log_def)

lemma fetch_loop_no_result:
  assumes "fetch_loop M route arr w = Some y"
  shows "(\<forall>t\<ge>gets w. isl (nfts_page M t (MIRROR_NODE @ route))) \<longrightarrow> False"
proof (rule fetch_loop.raw_induct[where P = "\<lambda>M route arr w y.
         (\<forall>t\<ge>gets w. isl (nfts_page M t (MIRROR_NODE @ route))) \<longrightarrow> False", OF _ assms])
  fix f M route arr w y
  assume IH: "\<And>M route arr w y. f M route arr w = Some y \<Longrightarrow>
                (\<forall>t\<ge>gets w. isl (nfts_page M t (MIRROR_NODE @ route))) \<longrightarrow> False"
    and body: "(case fetch_page M route arr w of
                  (None, arr', w') \<Rightarrow> Some (arr', w')
                | (Some route', arr', w') \<Rightarrow> f M route' arr' w') = Some y"
  show "(\<forall>t\<ge>gets w. isl (nfts_page M t (MIRROR_NODE @ route))) \<longrightarrow> False"
  proof
    assume a: "\<forall>t\<ge>gets w. isl (nfts_page M t (MIRROR_NODE @ route))"
    then have "isl (nfts_page M (gets w) (MIRROR_NODE @ route))" by simp
    then obtain err where e: "nfts_page M (gets w) (MIRROR_NODE @ route) = Inl err"
      by (cases "nfts_page M (gets w) (MIRROR_NODE @ route)") auto
    let ?w = "log (console_error_obj err) (w\<lparr>gets := gets w + 1\<rparr>)"
    from body have "f M route arr ?w = Some y"
      by (simp add: fetch_page_failed[OF e])
    moreover have "\<forall>t\<ge>gets ?w. isl (nfts_page M t (MIRROR_NODE @ route))"
      using a by (simp add: gets_log)
    ultimately show False using IH by blast
  qed
qed

lemma fetch_loop_diverges:
  "(\<forall>t\<ge>gets w. isl (nfts_page M t (MIRROR_NODE @ route))) \<Longrightarrow> fetch_loop M route arr w = None"
  using fetch_loop_no_result[of M route arr w] by (cases "fetch_loop M route arr w") auto

lemma received_push: "received rs arr \<Longrightarrow> received (rs @ [r]) (push_nft arr r)"
  by (simp add: received_def push_nft_def)

lemma received_foldl: "received rs arr \<Longrightarrow> received (rs @ ps) (foldl push_nft arr ps)"
proof (induction ps arbitrary: rs arr)
  case Nil then show ?case by simp
next
  case (Cons p ps)
  from Cons.IH[OF received_push[OF Cons.prems, of p]] show ?case by simp
qed

lemma received_page:
  "received rs arr \<Longrightarrow> fetch_page M route arr w = (route', arr', w') \<Longrightarrow>
   \<exists>ps. received (rs @ ps) arr'"
  unfolding fetch_page_def
  by (cases "nfts_page M (gets w) (MIRROR_NODE @ route)")
     (auto simp: Let_def intro: exI[of _ "[]"] received_foldl)

lemma received_loop:
  assumes "fetch_loop M route arr w = Some y"
  shows "\<forall>rs. received rs arr \<longrightarrow> (\<exists>ps. received (rs @ ps) (fst y))"
proof (rule fetch_loop.raw_induct[where P = "\<lambda>M route arr w y.
         \<forall>rs. received rs arr \<longrightarrow> (\<exists>ps. received (rs @ ps) (fst y))", OF _ assms])
  fix f M route arr w y
  assume IH: "\<And>M route arr w y. f M route arr w = Some y \<Longrightarrow>
                \<forall>rs. received rs arr \<longrightarrow> (\<exists>ps. received (rs @ ps) (fst y))"
    and body: "(case fetch_page M route arr w of
                  (None, arr', w') \<Rightarrow> Some (arr', w')
                | (Some route', arr', w') \<Rightarrow> f M route' arr' w') = Some y"
  show "\<forall>rs. received rs arr \<longrightarrow> (\<exists>ps. received (rs @ ps) (fst y))"
  proof (intro allI impI)
    fix rs assume r: "received rs arr"
    obtain route' arr' w' where p: "fetch_page M route arr w = (route', arr', w')"
      by (cases "fetch_page M route arr w") auto
    from received_page[OF r p] obtain ps where ps: "received (rs @ ps) arr'" by blast
    show "\<exists>ps. received (rs @ ps) (fst y)"
    proof (cases route')
      case None
      with body p have "y = (arr', w')" by simp
      then show ?thesis using ps by auto
    next
      case (Some r)
      with body p have "f M r arr' w' = Some y" by simp
      from IH[OF this] ps obtain qs where "received ((rs @ ps) @ qs) (fst y)" by blast
      then show ?thesis by (metis append_assoc)
    qed
  qed
qed

lemma received_rev: "received rs arr \<Longrightarrow> received (rev rs) (reverse_inventory arr)"
  by (simp add: received_def reverse_inventory_def rev_map)

lemma received_empty: "received [] empty_inventory"
  by (simp add: received_def empty_inventory_def)

lemma received_lengths: "received rs arr \<Longrightarrow> length (serials arr) = length rs \<and> length (metadata arr) = length rs \<and> length (deleteIds arr) = length rs"
  by (simp add: received_def)

subsection \<open>The minting loop\<close>

lemma addMetadata_loop_eq:
  "n \<le> length md \<Longrightarrow>
   addMetadata_loop md n i j payload =
     Inr (payload @ map (\<lambda>k. Buffer_from (md ! k)) [j ..< min (i + batchSize) n])"
proof (induction md n i j payload rule: addMetadata_loop.induct)
  case (1 md n i j payload)
  show ?case
  proof (cases "j < i + batchSize \<and> j < n")
    case True
    then have jl: "j < length md" using "1.prems" by simp
    have u: "[j ..< min (i + batchSize) n] = j # [j + 1 ..< min (i + batchSize) n]"
      using True by (simp add: upt_conv_Cons)
    have "addMetadata_loop md n i j payload
            = addMetadata_loop md n i (j + 1) (payload @ [Buffer_from (md ! j)])"
      using True jl by (subst addMetadata_loop.simps) simp
    then show ?thesis
      using "1.IH"[OF True jl "1.prems"] by (simp add: u)
  next
    case False
    have e: "[j ..< min (i + batchSize) n] = []" using False by auto
    have "addMetadata_loop md n i j payload = Inr payload"
      by (subst addMetadata_loop.simps) (use False in auto)
    then show ?thesis by (simp add: e)
  qed
qed

lemma addMetadata_batch:
  "length (serials arr) \<le> length (metadata arr) \<Longrightarrow>
   addMetadata_loop (metadata arr) (length (serials arr)) i i [] = Inr (batch_payload arr i)"
  by (simp add: addMetadata_loop_eq batch_payload_def batch_indices_def)

lemma executed_log: "executed (log l w) = executed w"
  by (simp add: log_def)

lemma executed_burn:
  "executed (burn L tok del w) = executed w @ [TokenBurnTransaction tok del]"
  by (cases "L (executed w) (TokenBurnTransaction tok del)")
     (simp_all add: burn_def Let_def executed_log)

lemma executed_mint_batch:
  assumes "length (serials arr) \<le> length (metadata arr)"
  shows "executed (mint_batch L tok arr i w) = executed w @ [TokenMintTransaction tok (batch_payload arr i)]
       \<or> (toDelete arr i \<noteq> [] \<and> executed (mint_batch L tok arr i w) =
            executed w @ [TokenMintTransaction tok (batch_payload arr i), TokenBurnTransaction tok (toDelete arr i)])"
  by (cases "L (executed w) (TokenMintTransaction tok (batch_payload arr i))")
     (simp_all add: mint_batch_def addMetadata_batch[OF assms] Let_def executed_log executed_burn)

lemma mint_batch_receipt:
  assumes "length (serials arr) \<le> length (metadata arr)"
    and "L (executed w) (TokenMintTransaction tok (batch_payload arr i)) = Receipt rx"
  shows "executed (mint_batch L tok arr i w) =
           executed w @ TokenMintTransaction tok (batch_payload arr i)
             # (if toDelete arr i = [] then [] else [TokenBurnTransaction tok (toDelete arr i)])"
  using assms(2)
  by (simp add: mint_batch_def addMetadata_batch[OF assms(1)] Let_def executed_log executed_burn)

lemma mints_mint_batch:
  assumes "length (serials arr) \<le> length (metadata arr)"
  shows "filter is_mint (executed (mint_batch L tok arr i w)) =
         filter is_mint (executed w) @ [TokenMintTransaction tok (batch_payload arr i)]"
  using executed_mint_batch[OF assms, of L tok i w] by auto

lemma burns_mint_batch:
  assumes "length (serials arr) \<le> length (metadata arr)" "toDelete arr i = []"
  shows "filter is_burn (executed (mint_batch L tok arr i w)) = filter is_burn (executed w)"
  using executed_mint_batch[OF assms(1), of L tok i w] assms(2) by auto

lemma toDelete_none:
  "\<forall>d\<in>set (deleteIds arr). \<not> d \<Longrightarrow> toDelete arr i = []"
  unfolding toDelete_def js_slice_def Let_def
  by (auto simp: filter_empty_conv dest!: set_zip_rightD in_set_takeD in_set_dropD)

lemma ceil_step: "i < n \<Longrightarrow> (n - i + 9) div 10 = Suc ((n - (i + 10) + 9) div 10)"
  for i n :: nat
  by (cases "i + 10 \<le> n") auto

lemma mints_mint_loop:
  "length (serials arr) \<le> length (metadata arr) \<Longrightarrow>
         status (mint_loop L tok arr i w) = Running \<Longrightarrow>
         filter is_mint (executed (mint_loop L tok arr i w)) =
         filter is_mint (executed w) @
           map (\<lambda>k. TokenMintTransaction tok (batch_payload arr (i + k * batchSize)))
               [0 ..< (length (serials arr) - i + 9) div 10]"
proof (induction L tok arr i w rule: mint_loop.induct)
  case (1 L tok arr i w)
  show ?case
  proof (cases "i < length (serials arr)")
    case False
    then have "mint_loop L tok arr i w = w" by (subst mint_loop.simps) simp
    moreover have "(length (serials arr) - i + 9) div 10 = 0" using False by simp
    ultimately show ?thesis by simp
  next
    case True
    let ?w = "mint_batch L tok arr i w"
    have r: "status ?w = Running"
      using "1.prems" True by (subst (asm) mint_loop.simps) (auto simp: Let_def split: if_splits)
    have eq: "mint_loop L tok arr i w = mint_loop L tok arr (i + batchSize) ?w"
      using True r by (subst mint_loop.simps) (simp add: Let_def)
    have ih: "filter is_mint (executed (mint_loop L tok arr (i + batchSize) ?w)) =
         filter is_mint (executed ?w) @
           map (\<lambda>k. TokenMintTransaction tok (batch_payload arr (i + batchSize + k * batchSize)))
               [0 ..< (length (serials arr) - (i + batchSize) + 9) div 10]"
      using "1.IH"[OF True refl r "1.prems"(1)] "1.prems"(2) eq by simp
    let ?m = "(length (serials arr) - (i + 10) + 9) div 10"
    let ?f = "\<lambda>k. TokenMintTransaction tok (batch_payload arr (i + k * batchSize))"
    have m: "map ?f [0 ..< Suc ?m] = ?f 0 # map (\<lambda>k. ?f (Suc k)) [0 ..< ?m]"
      by (rule map_upt_Suc)
    have sh: "(\<lambda>k. ?f (Suc k)) = (\<lambda>k. TokenMintTransaction tok (batch_payload arr (i + batchSize + k * batchSize)))"
      by (simp add: add.assoc)
    have "filter is_mint (executed (mint_loop L tok arr i w)) =
          filter is_mint (executed ?w) @ map (\<lambda>k. ?f (Suc k)) [0 ..< ?m]"
      using eq ih unfolding sh by (simp add: batchSize_def)
    also have "\<dots> = (filter is_mint (executed w) @ [?f 0]) @ map (\<lambda>k. ?f (Suc k)) [0 ..< ?m]"
      by (simp add: mints_mint_batch[OF "1.prems"(1)])
    also have "\<dots> = filter is_mint (executed w) @ map ?f [0 ..< Suc ?m]"
      by (simp only: m append_assoc append_Cons append_Nil)
    finally show ?thesis by (simp only: ceil_step[OF True])
  qed
qed

lemma executed_mint_loop_prefix:
  "length (serials arr) \<le> length (metadata arr) \<Longrightarrow>
   \<exists>rest. executed (mint_loop L tok arr i w) = executed w @ rest"
proof (induction L tok arr i w rule: mint_loop.induct)
  case (1 L tok arr i w)
  let ?w = "mint_batch L tok arr i w"
  from executed_mint_batch[OF "1.prems", of L tok i w]
  obtain r1 where r1: "executed ?w = executed w @ r1" by auto
  show ?case
  proof (cases "i < length (serials arr) \<and> status ?w = Running")
    case True
    then have eq: "mint_loop L tok arr i w = mint_loop L tok arr (i + batchSize) ?w"
      by (subst mint_loop.simps) (simp add: Let_def)
    from "1.IH"[OF _ refl _ "1.prems"] True
    obtain r2 where "executed (mint_loop L tok arr (i + batchSize) ?w) = executed ?w @ r2" by blast
    then show ?thesis unfolding eq r1 by simp
  next
    case False
    then have "mint_loop L tok arr i w = w \<or> mint_loop L tok arr i w = ?w"
      by (subst mint_loop.simps, subst mint_loop.simps) (auto simp: Let_def)
    then show ?thesis using r1 by auto
  qed
qed

lemma first_mint:
  assumes "length (serials arr) \<le> length (metadata arr)" "0 < length (serials arr)"
  shows "executed (mint_loop L tok arr 0 w) ! length (executed w)
           = TokenMintTransaction tok (batch_payload arr 0)"
proof -
  let ?w = "mint_batch L tok arr 0 w"
  from executed_mint_batch[OF assms(1), of L tok 0 w]
  obtain r1 where r1: "executed ?w = executed w @ TokenMintTransaction tok (batch_payload arr 0) # r1"
    by auto
  have "mint_loop L tok arr 0 w = ?w \<or> mint_loop L tok arr 0 w = mint_loop L tok arr (0 + batchSize) ?w"
    using assms(2) by (subst mint_loop.simps, subst mint_loop.simps) (auto simp: Let_def)
  moreover obtain r2 where "executed (mint_loop L tok arr (0 + batchSize) ?w) = executed ?w @ r2"
    using executed_mint_loop_prefix[OF assms(1)] by blast
  ultimately obtain r where "executed (mint_loop L tok arr 0 w)
       = executed w @ TokenMintTransaction tok (batch_payload arr 0) # r"
    using r1 by auto
  then show ?thesis by (simp add: nth_append)
qed

lemma burns_mint_loop:
  "length (serials arr) \<le> length (metadata arr) \<Longrightarrow> \<forall>d\<in>set (deleteIds arr). \<not> d \<Longrightarrow>
   filter is_burn (executed (mint_loop L tok arr i w)) = filter is_burn (executed w)"
proof (induction L tok arr i w rule: mint_loop.induct)
  case (1 L tok arr i w)
  let ?w = "mint_batch L tok arr i w"
  have b: "filter is_burn (executed ?w) = filter is_burn (executed w)"
    by (rule burns_mint_batch[OF "1.prems"(1) toDelete_none[OF "1.prems"(2)]])
  show ?case
  proof (cases "i < length (serials arr) \<and> status ?w = Running")
    case True
    then have eq: "mint_loop L tok arr i w = mint_loop L tok arr (i + batchSize) ?w"
      by (subst mint_loop.simps) (simp add: Let_def)
    from "1.IH"[OF _ refl _ "1.prems"] True b show ?thesis unfolding eq by simp
  next
    case False
    then have "mint_loop L tok arr i w = w \<or> mint_loop L tok arr i w = ?w"
      by (subst mint_loop.simps, subst mint_loop.simps) (auto simp: Let_def)
    then show ?thesis using b by auto
  qed
qed

lemma batches_cover:
  "concat (map (\<lambda>k. batch_indices n (i + k * batchSize)) [0 ..< (n - i + 9) div 10]) = [i ..< n]"
proof (induction "n - i" arbitrary: i rule: less_induct)
  case less
  show ?case
  proof (cases "i < n")
    case False
    then show ?thesis by simp
  next
    case True
    let ?m = "(n - (i + 10) + 9) div 10"
    let ?f = "\<lambda>k. batch_indices n (i + k * batchSize)"
    have ih: "concat (map (\<lambda>k. batch_indices n ((i + 10) + k * batchSize)) [0 ..< ?m]) = [i + 10 ..< n]"
      using less(1)[of "i + 10"] True by simp
    have sh: "(\<lambda>k. ?f (Suc k)) = (\<lambda>k. batch_indices n ((i + 10) + k * batchSize))"
      by (simp add: batchSize_def add.assoc)
    have "concat (map ?f [0 ..< Suc ?m]) = ?f 0 @ concat (map (\<lambda>k. ?f (Suc k)) [0 ..< ?m])"
      by (simp only: map_upt_Suc concat.simps)
    also have "\<dots> = [i ..< min (i + 10) n] @ [i + 10 ..< n]"
      unfolding sh ih by (simp add: batch_indices_def batchSize_def)
    also have "\<dots> = [i ..< n]"
    proof (cases "i + 10 \<le> n")
      case True
      then obtain d where d: "n = (i + 10) + d" using le_Suc_ex by blast
      have "[i ..< (i + 10) + d] = [i ..< i + 10] @ [i + 10 ..< (i + 10) + d]"
        by (rule upt_add_eq_append) simp
      then show ?thesis unfolding d by (simp add: min_def)
    next
      case False then show ?thesis by (simp add: min_def)
    qed
    finally show ?thesis by (simp only: ceil_step[OF True])
  qed
qed

lemma batch_size: "k < (n + 9) div 10 \<Longrightarrow>
   length (batch_indices n (k * batchSize)) \<le> 10 \<and> 0 < length (batch_indices n (k * batchSize))"
  by (auto simp: batch_indices_def batchSize_def)

lemma mint_payloads_append:
  "mint_payloads tok (xs @ ys) = mint_payloads tok xs @ mint_payloads tok ys"
  by (induction tok xs rule: mint_payloads.induct) simp_all

lemma mint_payloads_mint_batch:
  assumes "length (serials arr) \<le> length (metadata arr)"
  shows "mint_payloads tok (executed (mint_batch L tok arr i w))
           = mint_payloads tok (executed w) @ batch_payload arr i"
  using executed_mint_batch[OF assms, of L tok i w]
  by (auto simp: mint_payloads_append)

lemma upt_batch_split: "i < n \<Longrightarrow> [i ..< min (i + batchSize) n] @ [i + batchSize ..< n] = [i ..< n]"
proof (cases "i + batchSize \<le> n")
  case True
  assume "i < n"
  obtain d where d: "n = (i + batchSize) + d" using True le_Suc_ex by blast
  have "[i ..< (i + batchSize) + d] = [i ..< i + batchSize] @ [i + batchSize ..< (i + batchSize) + d]"
    by (rule upt_add_eq_append) simp
  then show ?thesis unfolding d by (simp add: min_def)
next
  case False
  then show ?thesis by (simp add: min_def)
qed

lemma mint_payloads_mint_loop:
  "length (serials arr) \<le> length (metadata arr) \<Longrightarrow>
   status (mint_loop L tok arr i w) = Running \<Longrightarrow>
   mint_payloads tok (executed (mint_loop L tok arr i w))
     = mint_payloads tok (executed w)
       @ map (\<lambda>j. Buffer_from (metadata arr ! j)) [i ..< length (serials arr)]"
proof (induction L tok arr i w rule: mint_loop.induct)
  case (1 L tok arr i w)
  show ?case
  proof (cases "i < length (serials arr)")
    case False
    then have "mint_loop L tok arr i w = w" by (subst mint_loop.simps) simp
    then show ?thesis using False by simp
  next
    case True
    let ?w = "mint_batch L tok arr i w"
    have r: "status ?w = Running"
      using "1.prems"(2) True by (subst (asm) mint_loop.simps) (auto simp: Let_def split: if_splits)
    have eq: "mint_loop L tok arr i w = mint_loop L tok arr (i + batchSize) ?w"
      using True r by (subst mint_loop.simps) (simp add: Let_def)
    have ih: "mint_payloads tok (executed (mint_loop L tok arr (i + batchSize) ?w))
        = mint_payloads tok (executed ?w)
          @ map (\<lambda>j. Buffer_from (metadata arr ! j)) [i + batchSize ..< length (serials arr)]"
      using "1.IH"[OF True refl r "1.prems"(1)] "1.prems"(2) eq by simp
    have "mint_payloads tok (executed (mint_loop L tok arr i w))
        = mint_payloads tok (executed w)
          @ map (\<lambda>j. Buffer_from (metadata arr ! j))
              ([i ..< min (i + batchSize) (length (serials arr))] @ [i + batchSize ..< length (serials arr)])"
      unfolding eq ih mint_payloads_mint_batch[OF "1.prems"(1)]
      by (simp add: batch_payload_def batch_indices_def)
    then show ?thesis unfolding upt_batch_split[OF True] .
  qed
qed

lemma mint_payloads_all:
  assumes "received rs arr" "status (mint_loop L tok arr 0 w) = Running"
  shows "mint_payloads tok (executed (mint_loop L tok arr 0 w))
     = mint_payloads tok (executed w)
       @ map (\<lambda>r. Buffer_from (toString_utf8 (Buffer_from_base64 (nft_metadata r)))) rs"
proof -
  have l: "length (serials arr) \<le> length (metadata arr)" and n: "length (serials arr) = length (metadata arr)"
    and m: "metadata arr = map (\<lambda>r. toString_utf8 (Buffer_from_base64 (nft_metadata r))) rs"
    using assms(1) by (simp_all add: received_def)
  have "map (\<lambda>j. Buffer_from (metadata arr ! j)) [0 ..< length (serials arr)]
          = map Buffer_from (map (\<lambda>j. metadata arr ! j) [0 ..< length (metadata arr)])"
    unfolding n by simp
  also have "\<dots> = map Buffer_from (metadata arr)" by (simp only: map_nth)
  also have "\<dots> = map (\<lambda>r. Buffer_from (toString_utf8 (Buffer_from_base64 (nft_metadata r)))) rs"
    unfolding m by simp
  finally show ?thesis using mint_payloads_mint_loop[OF l assms(2)] by simp
qed

subsection \<open>Lists, slices and the example ledger\<close>

lemma zip_nth_map:
  "zip xs ys = map (\<lambda>j. (xs ! j, ys ! j)) [0 ..< min (length xs) (length ys)]"
  by (rule nth_equalityI) auto

lemma take_upt_min: "take k [i ..< m] = [i ..< min (i + k) m]"
proof (cases "i + k \<le> m")
  case True
  then show ?thesis by (simp add: min_def)
next
  case False
  then show ?thesis by (simp add: min_def)
qed

lemma zip_slices:
  "zip (js_slice xs i (i + k)) (js_slice ys i (i + k))
     = map (\<lambda>j. (xs ! j, ys ! j)) [i ..< min (i + k) (min (length xs) (length ys))]"
proof -
  have "zip (js_slice xs i (i + k)) (js_slice ys i (i + k)) = take k (drop i (zip xs ys))"
    by (simp add: js_slice_def take_zip drop_zip)
  also have "\<dots> = map (\<lambda>j. (xs ! j, ys ! j))
                     (take k (drop i [0 ..< min (length xs) (length ys)]))"
    by (subst zip_nth_map) (simp only: take_map drop_map)
  also have "take k (drop i [0 ..< min (length xs) (length ys)])
               = [i ..< min (i + k) (min (length xs) (length ys))]"
    by (simp only: drop_upt take_upt_min) simp
  finally show ?thesis .
qed

lemma toDelete_indices:
  "toDelete arr i =
     map (\<lambda>j. serials arr ! j)
       (filter (\<lambda>j. deleteIds arr ! j)
          (batch_indices (min (length (serials arr)) (length (deleteIds arr))) i))"
  unfolding toDelete_def Let_def zip_slices batch_indices_def
  by (simp add: filter_map comp_def)

lemma received_foldl_empty: "received rs (foldl push_nft empty_inventory rs)"
  using received_foldl[OF received_empty, of rs] by simp

lemma slice_nth:
  "js_slice xs i (i + k) = map (\<lambda>j. xs ! j) [i ..< min (i + k) (length xs)]"
proof -
  have "js_slice xs i (i + k) = take k (drop i (map (\<lambda>j. xs ! j) [0 ..< length xs]))"
    by (simp add: js_slice_def map_nth)
  also have "\<dots> = map (\<lambda>j. xs ! j) (take k (drop i [0 ..< length xs]))"
    by (simp only: take_map drop_map)
  also have "take k (drop i [0 ..< length xs]) = [i ..< min (i + k) (length xs)]"
    by (simp only: drop_upt take_upt_min) simp
  finally show ?thesis .
qed

lemma mint_batch_testnet:
  assumes "length (serials arr) \<le> length (metadata arr)" "toDelete arr i = []" "status w = Running"
  shows "status (mint_batch testnet tok arr i w) = Running"
  using assms
  by (simp add: mint_batch_def addMetadata_batch Let_def testnet_def log_def)

lemma mint_loop_testnet:
  "length (serials arr) \<le> length (metadata arr) \<Longrightarrow> \<forall>d\<in>set (deleteIds arr). \<not> d \<Longrightarrow>
   status w = Running \<Longrightarrow> status (mint_loop testnet tok arr i w) = Running"
proof (induction testnet tok arr i w rule: mint_loop.induct)
  case (1 tok arr i w)
  let ?w = "mint_batch testnet tok arr i w"
  have r: "status ?w = Running"
    by (rule mint_batch_testnet[OF "1.prems"(1) toDelete_none[OF "1.prems"(2)] "1.prems"(3)])
  show ?case
  proof (cases "i < length (serials arr)")
    case True
    then have "mint_loop testnet tok arr i w = mint_loop testnet tok arr (i + batchSize) ?w"
      using r by (subst mint_loop.simps) (simp add: Let_def)
    then show ?thesis using "1.hyps"[OF True refl r "1.prems"(1,2) r] by simp
  next
    case False
    then have "mint_loop testnet tok arr i w = w" by (subst mint_loop.simps) simp
    then show ?thesis using "1.prems"(3) by simp
  qed
qed

lemma mint_loop_empty: "serials arr = [] \<Longrightarrow> mint_loop L tok arr i w = w"
  by (subst mint_loop.simps) simp

lemma js_split_nonempty: "js_split sep s \<noteq> []"
  by (induction s) (auto split: list.splits)

lemma fetch_page_frame:
  "fetch_page M route arr w = (route', arr', w') \<Longrightarrow>
   status w' = status w \<and> executed w' = executed w"
  unfolding fetch_page_def
  by (cases "nfts_page M (gets w) (MIRROR_NODE @ route)") (auto simp: Let_def log_def)

lemma fetch_loop_frame:
  assumes "fetch_loop M route arr w = Some y"
  shows "status (snd y) = status w \<and> executed (snd y) = executed w"
proof (rule fetch_loop.raw_induct[where P = "\<lambda>M route arr w y.
         status (snd y) = status w \<and> executed (snd y) = executed w", OF _ assms])
  fix f M route arr w y
  assume IH: "\<And>M route arr w y. f M route arr w = Some y \<Longrightarrow>
                status (snd y) = status w \<and> executed (snd y) = executed w"
    and body: "(case fetch_page M route arr w of
                  (None, arr', w') \<Rightarrow> Some (arr', w')
                | (Some route', arr', w') \<Rightarrow> f M route' arr' w') = Some y"
  obtain route' arr' w' where p: "fetch_page M route arr w = (route', arr', w')"
    by (cases "fetch_page M route arr w") auto
  note fr = fetch_page_frame[OF p]
  show "status (snd y) = status w \<and> executed (snd y) = executed w"
  proof (cases route')
    case None
    with body p have "y = (arr', w')" by simp
    then show ?thesis using fr by simp
  next
    case (Some r)
    with body p have "f M r arr' w' = Some y" by simp
    from IH[OF this] fr show ?thesis by simp
  qed
qed

lemma migrate_nfts_empty:
  assumes "status w = Running"
    and "fetch_loop M (''/api/v1/tokens/'' @ token @ ''/nfts?limit=100'') empty_inventory w = Some (arr, w1)"
    and "serials arr = []"
  shows "\<exists>w'. migrate_nfts M L token newToken strOutput w
              = Some (strOutput @ [''Mainnet Token '' @ token @ '' migrated to Testnet '' @ newToken], w')
            \<and> executed w' = executed w \<and> status w' = Running"
  using assms fetch_loop_frame[OF assms(2)]
  by (simp add: migrate_nfts_def Let_def reverse_inventory_def mint_loop_empty log_def)

lemma mint_batch_testnet_running:
  assumes "length (serials arr) \<le> length (metadata arr)" "status w = Running"
  shows "status (mint_batch testnet tok arr i w) = Running"
  using assms
  by (simp add: mint_batch_def burn_def addMetadata_batch Let_def testnet_def log_def)

lemma mint_loop_testnet_running:
  "length (serials arr) \<le> length (metadata arr) \<Longrightarrow>
   status w = Running \<Longrightarrow> status (mint_loop testnet tok arr i w) = Running"
proof (induction testnet tok arr i w rule: mint_loop.induct)
  case (1 tok arr i w)
  let ?w = "mint_batch testnet tok arr i w"
  have r: "status ?w = Running"
    by (rule mint_batch_testnet_running[OF "1.prems"])
  show ?case
  proof (cases "i < length (serials arr)")
    case True
    then have "mint_loop testnet tok arr i w = mint_loop testnet tok arr (i + batchSize) ?w"
      using r by (subst mint_loop.simps) (simp add: Let_def)
    then show ?thesis using "1.hyps"[OF True refl r "1.prems"(1) r] by simp
  next
    case False
    then have "mint_loop testnet tok arr i w = w" by (subst mint_loop.simps) simp
    then show ?thesis using "1.prems"(2) by simp
  qed
qed

section \<open>The claims\<close>

text \<open>
  C1, as the code has it. When the mint of the batch starting at \<open>i\<close> is confirmed, the
  transactions of the batch are the mint and, when the burn set is not empty, one burn.
  The burn set is made of the serials of the source: it holds \<open>serials ! j\<close> for the
  positions \<open>j\<close> of the batch whose flag \<open>deleteIds ! j\<close> is true, in order. The
  receipt of the mint is not consulted; the burn set is the set of newly minted serials
  at the flagged positions when the receipt's serials are the source serials of the batch.
\<close>

theorem burn_request_of_batch:
  assumes "length (serials arr) \<le> length (metadata arr)"
    and "L (executed w) (TokenMintTransaction newToken (batch_payload arr i)) = Receipt mintReceipt"
  shows "executed (mint_batch L newToken arr i w) =
           executed w @ TokenMintTransaction newToken (batch_payload arr i)
             # (if toDelete arr i = [] then [] else [TokenBurnTransaction newToken (toDelete arr i)])
         \<and> toDelete arr i =
             map (\<lambda>j. serials arr ! j)
               (filter (\<lambda>j. deleteIds arr ! j)
                  (batch_indices (min (length (serials arr)) (length (deleteIds arr))) i))
         \<and> (rx_serials mintReceipt = js_slice (serials arr) i (i + batchSize) \<longrightarrow>
              toDelete arr i
                = minted_flagged (rx_serials mintReceipt) (js_slice (deleteIds arr) i (i + batchSize)))"
proof -
  have "rx_serials mintReceipt = js_slice (serials arr) i (i + batchSize) \<longrightarrow>
        toDelete arr i
          = minted_flagged (rx_serials mintReceipt) (js_slice (deleteIds arr) i (i + batchSize))"
    by (simp add: minted_flagged_def toDelete_def)
  then show ?thesis
    using mint_batch_receipt[where L = L and w = w, OF assms] toDelete_indices[of arr i]
    by blast
qed

text \<open>C1, at an example.\<close>

theorem burn_request_of_batch_witness:
  "executed (mint_batch testnet ''0.0.5005'' inventory2 0 initial_world)
     = [TokenMintTransaction ''0.0.5005'' [[104, 105], [104, 105]],
        TokenBurnTransaction ''0.0.5005'' [2]]
   \<and> toDelete inventory2 0 = [2]
   \<and> toDelete inventory2 0 = minted_flagged [1, 2] (js_slice (deleteIds inventory2) 0 (0 + batchSize))"
proof -
  have p: "batch_payload inventory2 0 = [[104, 105], [104, 105]]"
    by (simp add: batch_payload_def batch_indices_def inventory2_def batchSize_def
        Buffer_from_def utf8_encode_cp_def upt_rec)
  have d: "toDelete inventory2 0 = [2]"
    by (simp add: toDelete_def js_slice_def inventory2_def batchSize_def)
  have r: "testnet (executed initial_world) (TokenMintTransaction ''0.0.5005'' (batch_payload inventory2 0))
        = Receipt \<lparr>rx_tokenId = ''0.0.5005'', rx_serials = [1, 2], rx_status = ''SUCCESS''\<rparr>"
    by (simp add: p testnet_def initial_world_def upt_rec)
  have l: "length (serials inventory2) \<le> length (metadata inventory2)"
    by (simp add: inventory2_def)
  have a: "rx_serials \<lparr>rx_tokenId = ''0.0.5005'', rx_serials = [1, 2], rx_status = ''SUCCESS''\<rparr>
             = js_slice (serials inventory2) 0 (0 + batchSize)"
    by (simp add: js_slice_def inventory2_def batchSize_def)
  show ?thesis
    using burn_request_of_batch[where L = testnet and w = initial_world, OF l r] p d a
    by (simp add: initial_world_def)
qed

text \<open>
  C1 as stated fails: for a source NFT with serial 5 that is flagged deleted, the testnet
  mints serial 1 and the burn request names serial 5.
\<close>

theorem burn_request_counterexample:
  "testnet (executed initial_world) (TokenMintTransaction ''0.0.5005'' (batch_payload inventory5 0))
     = Receipt \<lparr>rx_tokenId = ''0.0.5005'', rx_serials = [1], rx_status = ''SUCCESS''\<rparr>
   \<and> executed (mint_batch testnet ''0.0.5005'' inventory5 0 initial_world)
     = [TokenMintTransaction ''0.0.5005'' [[104, 105]], TokenBurnTransaction ''0.0.5005'' [5]]
   \<and> toDelete inventory5 0 \<noteq> minted_flagged [1] (js_slice (deleteIds inventory5) 0 (0 + batchSize))"
proof -
  have p: "batch_payload inventory5 0 = [[104, 105]]"
    by (simp add: batch_payload_def batch_indices_def inventory5_def batchSize_def
        Buffer_from_def utf8_encode_cp_def)
  have d: "toDelete inventory5 0 = [5]"
    by (simp add: toDelete_def js_slice_def inventory5_def batchSize_def)
  have r: "testnet (executed initial_world) (TokenMintTransaction ''0.0.5005'' (batch_payload inventory5 0))
        = Receipt \<lparr>rx_tokenId = ''0.0.5005'', rx_serials = [1], rx_status = ''SUCCESS''\<rparr>"
    by (simp add: p testnet_def initial_world_def)
  have l: "length (serials inventory5) \<le> length (metadata inventory5)"
    by (simp add: inventory5_def)
  have e: "executed (mint_batch testnet ''0.0.5005'' inventory5 0 initial_world)
     = [TokenMintTransaction ''0.0.5005'' [[104, 105]], TokenBurnTransaction ''0.0.5005'' [5]]"
    using mint_batch_receipt[where L = testnet and w = initial_world, OF l r] p d
      by (simp add: initial_world_def)
  have m: "minted_flagged [1] (js_slice (deleteIds inventory5) 0 (0 + batchSize)) = [1]"
    by (simp add: minted_flagged_def js_slice_def inventory5_def batchSize_def)
  show ?thesis using r e m d by simp
qed

text \<open>
  C2, as the code has it. With no \<^verbatim>\<open>-h\<close> and no third entry in the argument vector, the
  script returns, and it makes no request to the mirror node, executes no transaction and
  writes no key file. The process ends with exit status 1 exactly when the script fails
  before \<^verbatim>\<open>main\<close>, by an uncaught error: a required environment variable is missing, or
  the SDK rejects the operator's identifier, the operator's key or the supply key.
  Otherwise \<^verbatim>\<open>main\<close> throws the TypeError of \<^verbatim>\<open>undefined.split\<close>, the handler at the end
  of the script logs it, and the process does not end with status 1: it stays alive while
  the client holds it, and ends with status 0 when the client does not.
\<close>

theorem missing_argument_is_logged:
  assumes "''-h'' \<notin> set argv" and "length argv \<le> 2"
  shows "\<exists>out. script S e argv M L = Some out
           \<and> gets (final out) = 0 \<and> executed (final out) = [] \<and> key_file (final out) = None
           \<and> (ending out = Exit 1) = (\<not> starts S e)
           \<and> (if starts S e
               then ending out = (if client_holds_process S then Alive else Exit 0)
                    \<and> final out = log (console_error_obj split_of_undefined)
                                    (initial_world\<lparr>status := Rejected split_of_undefined\<rparr>)
               else \<exists>err. final out = initial_world\<lparr>status := Rejected err\<rparr>)"
proof -
  have m: "main e cfg argv M L initial_world
             = Some (initial_world\<lparr>status := Rejected split_of_undefined\<rparr>)" for cfg
    using assms by (simp add: main_def argv2_def)
  show ?thesis
    unfolding script_def m starts_def
    by (auto simp: uncaught_def settled_def initial_world_def log_def
             split: option.splits sum.splits)
qed

text \<open>C2, at an example.\<close>

theorem missing_argument_is_logged_witness:
  "script sdk_ok env_ok [''node'', ''migrateToken.js''] mirror_foo testnet
     = Some \<lparr>ending = Alive,
             final = log (console_error_obj split_of_undefined)
                       (initial_world\<lparr>status := Rejected split_of_undefined\<rparr>)\<rparr>
   \<and> gets (log (console_error_obj split_of_undefined)
             (initial_world\<lparr>status := Rejected split_of_undefined\<rparr>)) = 0
   \<and> executed (log (console_error_obj split_of_undefined)
                 (initial_world\<lparr>status := Rejected split_of_undefined\<rparr>)) = []
   \<and> key_file (log (console_error_obj split_of_undefined)
                 (initial_world\<lparr>status := Rejected split_of_undefined\<rparr>)) = None
   \<and> map_option ending
         (script sdk_ok (env_ok\<lparr>ACCOUNT_ID := None\<rparr>) [''node'', ''migrateToken.js''] mirror_foo testnet)
       = Some (Exit 1)"
proof -
  have s: "starts sdk_ok env_ok"
    by (simp add: starts_def sdk_ok_def env_ok_def)
  have c: "client_holds_process sdk_ok" by (simp add: sdk_ok_def)
  have a: "''-h'' \<notin> set [''node'', ''migrateToken.js'']" "length [''node'', ''migrateToken.js''] \<le> 2"
    by simp_all
  obtain out where o: "script sdk_ok env_ok [''node'', ''migrateToken.js''] mirror_foo testnet = Some out"
    and g: "gets (final out) = 0" "executed (final out) = []" "key_file (final out) = None"
    and f: "ending out = Alive"
           "final out = log (console_error_obj split_of_undefined)
                          (initial_world\<lparr>status := Rejected split_of_undefined\<rparr>)"
    using missing_argument_is_logged[OF a, of sdk_ok env_ok mirror_foo testnet] s c by auto
  have "out = \<lparr>ending = Alive,
             final = log (console_error_obj split_of_undefined)
                       (initial_world\<lparr>status := Rejected split_of_undefined\<rparr>)\<rparr>"
    using f by (cases out) simp
  then have one: "script sdk_ok env_ok [''node'', ''migrateToken.js''] mirror_foo testnet
     = Some \<lparr>ending = Alive,
             final = log (console_error_obj split_of_undefined)
                       (initial_world\<lparr>status := Rejected split_of_undefined\<rparr>)\<rparr>"
    using o by simp
  have n: "\<not> starts sdk_ok (env_ok\<lparr>ACCOUNT_ID := None\<rparr>)"
    by (simp add: starts_def)
  obtain out' where "script sdk_ok (env_ok\<lparr>ACCOUNT_ID := None\<rparr>) [''node'', ''migrateToken.js'']
                       mirror_foo testnet = Some out'"
    and "ending out' = Exit 1"
    using missing_argument_is_logged[OF a, of sdk_ok "env_ok\<lparr>ACCOUNT_ID := None\<rparr>" mirror_foo testnet] n
    by auto
  then have two: "map_option ending
         (script sdk_ok (env_ok\<lparr>ACCOUNT_ID := None\<rparr>) [''node'', ''migrateToken.js''] mirror_foo testnet)
       = Some (Exit 1)"
    by simp
  show ?thesis using one two g f by simp
qed

text \<open>
  C2 as stated fails: with the environment set and accepted by the SDK, a missing argument
  leaves the process alive, or ends it with status 0 when the client does not hold it; and
  with the empty string as argument the script goes on to request the token of that name
  (one request is made) and does not end with status 1 either.
\<close>

theorem missing_argument_counterexample:
  "map_option ending (script sdk_ok env_ok [''node'', ''migrateToken.js''] mirror_foo testnet)
     = Some Alive
   \<and> map_option ending (script (sdk_ok\<lparr>client_holds_process := False\<rparr>) env_ok
                         [''node'', ''migrateToken.js''] mirror_foo testnet)
     = Some (Exit 0)
   \<and> map_option ending (script sdk_ok env_ok [''node'', ''migrateToken.js'', []] mirror_down testnet)
     = Some Alive
   \<and> map_option ending (script (sdk_ok\<lparr>client_holds_process := False\<rparr>) env_ok
                         [''node'', ''migrateToken.js'', []] mirror_down testnet)
     = Some (Exit 0)
   \<and> map_option (gets \<circ> final)
        (script sdk_ok env_ok [''node'', ''migrateToken.js'', []] mirror_down testnet) = Some 1"
proof -
  have t: "migrate_token cfg_ok mirror_down testnet [] [] initial_world
     = Some ([], log (console_error ''Token  not found on mirror node'')
                    (log (console_error_obj (RequestError ''ECONNREFUSED''))
                      (initial_world\<lparr>gets := 1\<rparr>)))"
    by (simp add: migrate_token_def getTokenDetails_def mirror_down_def Let_def initial_world_def)
  have k: "truthy (SUPPLY_KEY_var env_ok)"
    by (simp add: truthy_def env_ok_def supply_key_text_def)
  have m0: "main env_ok cfg_ok [''node'', ''migrateToken.js''] mirror_foo testnet initial_world
     = Some (initial_world\<lparr>status := Rejected split_of_undefined\<rparr>)"
    by (simp add: main_def argv2_def)
  have m1: "main env_ok cfg_ok [''node'', ''migrateToken.js'', []] mirror_down testnet initial_world
     = Some (log (console_log [])
              (log (console_log ''Migration complete'')
                (log (console_error ''Token  not found on mirror node'')
                  (log (console_error_obj (RequestError ''ECONNREFUSED''))
                    (initial_world\<lparr>gets := 1\<rparr>)))))"
    unfolding main_def by (simp add: argv2_def Let_def k t) (simp add: log_def initial_world_def)
  have p: "AccountId_fromString S ''0.0.2'' = Inr ''0.0.2''"
          "PrivateKey_fromStringED25519 S operator_key = Inr operator_key"
          "PrivateKey_fromStringED25519 S supply_key_text = Inr supply_key_text"
    if "S = sdk_ok \<or> S = sdk_ok\<lparr>client_holds_process := False\<rparr>" for S
    using that by (auto simp: sdk_ok_def)
  have n: "supply_key_text \<noteq> []" by (simp add: supply_key_text_def)
  have s0: "script S env_ok [''node'', ''migrateToken.js''] mirror_foo testnet
     = Some \<lparr>ending = settled S,
             final = log (console_error_obj split_of_undefined)
                       (initial_world\<lparr>status := Rejected split_of_undefined\<rparr>)\<rparr>"
    if "S = sdk_ok \<or> S = sdk_ok\<lparr>client_holds_process := False\<rparr>" for S
    unfolding script_def
    by (simp add: env_ok_def p[OF that] n m0[unfolded cfg_ok_def env_ok_def])
  have s1: "script S env_ok [''node'', ''migrateToken.js'', []] mirror_down testnet
     = Some \<lparr>ending = settled S,
             final = log (console_log [])
              (log (console_log ''Migration complete'')
                (log (console_error ''Token  not found on mirror node'')
                  (log (console_error_obj (RequestError ''ECONNREFUSED''))
                    (initial_world\<lparr>gets := 1\<rparr>))))\<rparr>"
    if "S = sdk_ok \<or> S = sdk_ok\<lparr>client_holds_process := False\<rparr>" for S
    unfolding script_def
    by (simp add: env_ok_def p[OF that] n m1[unfolded cfg_ok_def env_ok_def])
       (simp add: log_def initial_world_def)
  have e: "settled sdk_ok = Alive" "settled (sdk_ok\<lparr>client_holds_process := False\<rparr>) = Exit 0"
    by (simp_all add: settled_def sdk_ok_def)
  show ?thesis
    by (simp add: s0 s1 e) (simp add: log_def initial_world_def)
qed

text \<open>
  C3, as the code has it. For the records \<open>rs\<close> of the inventory, the payloads that the
  batch starting at \<open>i\<close> adds to its mint are, for the records of the batch in reversed
  order, the UTF-8 encoding of the UTF-8 decoding of the base64 decoding of the metadata
  string. That payload is the base64 decoding itself exactly when the decoded bytes are
  well-formed UTF-8.
\<close>

theorem mint_payload_of_metadata:
  "addMetadata_loop (metadata (reverse_inventory (foldl push_nft empty_inventory rs)))
       (length (serials (reverse_inventory (foldl push_nft empty_inventory rs)))) i i []
     = Inr (map (\<lambda>r. Buffer_from (toString_utf8 (Buffer_from_base64 (nft_metadata r))))
              (js_slice (rev rs) i (i + batchSize)))
   \<and> ((Buffer_from (toString_utf8 (Buffer_from_base64 m)) = Buffer_from_base64 m)
        = utf8_valid (Buffer_from_base64 m))"
proof -
  let ?arr = "reverse_inventory (foldl push_nft empty_inventory rs)"
  have r: "received (rev rs) ?arr"
    by (rule received_rev[OF received_foldl_empty])
  then have l: "length (serials ?arr) \<le> length (metadata ?arr)" and n: "length (serials ?arr) = length rs"
    and m: "metadata ?arr = map (\<lambda>r. toString_utf8 (Buffer_from_base64 (nft_metadata r))) (rev rs)"
    by (simp_all add: received_def)
  have "batch_payload ?arr i
     = map (\<lambda>j. Buffer_from (toString_utf8 (Buffer_from_base64 (nft_metadata (rev rs ! j)))))
           [i ..< min (i + batchSize) (length rs)]"
    unfolding batch_payload_def batch_indices_def n m by simp
  also have "\<dots> = map (\<lambda>r. Buffer_from (toString_utf8 (Buffer_from_base64 (nft_metadata r))))
              (js_slice (rev rs) i (i + batchSize))"
    by (simp add: slice_nth[of "rev rs" i batchSize] comp_def)
  finally show ?thesis using addMetadata_batch[OF l, of i] roundtrip_iff by simp
qed

text \<open>C3, at an example.\<close>

theorem mint_payload_of_metadata_witness:
  "addMetadata_loop (metadata (reverse_inventory (foldl push_nft empty_inventory [nft_ff, nft_hi])))
       (length (serials (reverse_inventory (foldl push_nft empty_inventory [nft_ff, nft_hi])))) 0 0 []
     = Inr [[104, 105], [239, 191, 189]]
   \<and> Buffer_from (toString_utf8 (Buffer_from_base64 ''aGk='')) = Buffer_from_base64 ''aGk=''
   \<and> utf8_valid (Buffer_from_base64 ''aGk='')"
proof -
  have v: "Buffer_from_base64 ''aGk='' = [104, 105]"
    by (simp add: Buffer_from_base64_def List.map_filter_def unbase64_def)
  have f: "Buffer_from_base64 ''/w=='' = [255]"
    by (simp add: Buffer_from_base64_def List.map_filter_def unbase64_def)
  have u: "utf8_valid (Buffer_from_base64 ''aGk='')" unfolding v by simp
  have e: "Buffer_from [65533] = [239, 191, 189]"
    by (simp add: Buffer_from_def utf8_encode_cp_def)
  have e2: "Buffer_from [104, 105] = [104, 105]"
    by (simp add: Buffer_from_def utf8_encode_cp_def)
  show ?thesis
    using mint_payload_of_metadata[where rs = "[nft_ff, nft_hi]" and i = 0 and m = "''aGk=''"] u
    by (simp add: js_slice_def batchSize_def nft_ff_def nft_hi_def v f e e2)
qed

text \<open>
  C3 as stated fails: the metadata \<^verbatim>\<open>/w==\<close> is the single byte 255, which is not
  UTF-8; the mint carries the three bytes of U+FFFD instead.
\<close>

theorem mint_payload_counterexample:
  "Buffer_from_base64 (nft_metadata nft_ff) = [255]
   \<and> executed (mint_batch testnet ''0.0.5005'' (push_nft empty_inventory nft_ff) 0 initial_world)
       = [TokenMintTransaction ''0.0.5005'' [[239, 191, 189]]]
   \<and> Buffer_from (toString_utf8 (Buffer_from_base64 (nft_metadata nft_ff)))
       \<noteq> Buffer_from_base64 (nft_metadata nft_ff)"
proof -
  have f: "Buffer_from_base64 ''/w=='' = [255]"
    by (simp add: Buffer_from_base64_def List.map_filter_def unbase64_def)
  let ?arr = "push_nft empty_inventory nft_ff"
  have a: "?arr = \<lparr>serials = [1], metadata = [[65533]], deleteIds = [False]\<rparr>"
    by (simp add: push_nft_def empty_inventory_def nft_ff_def f)
  have p: "batch_payload ?arr 0 = [[239, 191, 189]]"
    unfolding a by (simp add: batch_payload_def batch_indices_def batchSize_def
        Buffer_from_def utf8_encode_cp_def)
  have d: "toDelete ?arr 0 = []"
    unfolding a by (simp add: toDelete_def js_slice_def batchSize_def)
  have l: "length (serials ?arr) \<le> length (metadata ?arr)" unfolding a by simp
  have r: "testnet (executed initial_world) (TokenMintTransaction ''0.0.5005'' (batch_payload ?arr 0))
        = Receipt \<lparr>rx_tokenId = ''0.0.5005'', rx_serials = [1], rx_status = ''SUCCESS''\<rparr>"
    by (simp add: p testnet_def initial_world_def)
  have e3: "Buffer_from (toString_utf8 [255]) = [239, 191, 189]"
    by (simp add: Buffer_from_def utf8_encode_cp_def)
  show ?thesis
    using mint_batch_receipt[where L = testnet and w = initial_world, OF l r] p d f e3
    by (simp add: initial_world_def nft_ff_def)
qed

text \<open>
  C4. In the inventory loop, a failed page request leaves the route and the three
  sequences as they were and only logs the error, so the next turn of the loop requests
  the same page again. When the requests for that page fail from now on, the loop has no
  result: it never ends, neither by an exit nor by going on to another page, and the
  migration of the token has no result either.
\<close>

theorem failed_page_is_retried_forever:
  "(nfts_page M (gets w) (MIRROR_NODE @ route) = Inl err \<longrightarrow>
      fetch_page M route arr w
        = (Some route, arr, log (console_error_obj err) (w\<lparr>gets := gets w + 1\<rparr>)))
   \<and> (nfts_page M (gets w) (MIRROR_NODE @ route) = Inl err \<longrightarrow>
      fetch_loop M route arr w
        = fetch_loop M route arr (log (console_error_obj err) (w\<lparr>gets := gets w + 1\<rparr>)))
   \<and> ((\<forall>t\<ge>gets w. isl (nfts_page M t (MIRROR_NODE @ route))) \<longrightarrow>
        fetch_loop M route arr w = None)
   \<and> ((\<forall>t\<ge>gets w. isl (nfts_page M t
           (MIRROR_NODE @ ''/api/v1/tokens/'' @ token @ ''/nfts?limit=100''))) \<longrightarrow>
        migrate_nfts M L token newToken strOutput w = None)"
proof -
  have "nfts_page M (gets w) (MIRROR_NODE @ route) = Inl err \<longrightarrow>
      fetch_loop M route arr w
        = fetch_loop M route arr (log (console_error_obj err) (w\<lparr>gets := gets w + 1\<rparr>))"
    by (subst fetch_loop.simps) (simp add: fetch_page_failed)
  then show ?thesis
    by (simp add: fetch_page_failed fetch_loop_diverges migrate_nfts_def)
qed

text \<open>C4, at an example.\<close>

theorem failed_page_is_retried_forever_witness:
  "fetch_page mirror_down ''/api/v1/tokens/0.0.111/nfts?limit=100'' empty_inventory initial_world
     = (Some ''/api/v1/tokens/0.0.111/nfts?limit=100'', empty_inventory,
        log (console_error_obj (RequestError ''ECONNREFUSED''))
          (initial_world\<lparr>gets := gets initial_world + 1\<rparr>))
   \<and> fetch_loop mirror_down ''/api/v1/tokens/0.0.111/nfts?limit=100'' empty_inventory initial_world = None
   \<and> migrate_nfts mirror_down testnet ''0.0.111'' ''0.0.5005'' [] initial_world = None"
proof -
  have h1: "nfts_page mirror_down (gets initial_world)
              (MIRROR_NODE @ ''/api/v1/tokens/0.0.111/nfts?limit=100'') = Inl (RequestError ''ECONNREFUSED'')"
    by (simp add: mirror_down_def)
  have h2: "\<forall>t\<ge>gets initial_world. isl (nfts_page mirror_down t
              (MIRROR_NODE @ ''/api/v1/tokens/0.0.111/nfts?limit=100''))"
    by (simp add: mirror_down_def)
  have h3: "\<forall>t\<ge>gets initial_world. isl (nfts_page mirror_down t
              (MIRROR_NODE @ ''/api/v1/tokens/'' @ ''0.0.111'' @ ''/nfts?limit=100''))"
    by (simp add: mirror_down_def)
  show ?thesis
    using failed_page_is_retried_forever[where M = mirror_down and w = initial_world
      and route = "''/api/v1/tokens/0.0.111/nfts?limit=100''" and arr = empty_inventory
      and err = "RequestError ''ECONNREFUSED''" and token = "''0.0.111''" and L = testnet
      and newToken = "''0.0.5005''" and strOutput = "[]"] h1 h2 h3
    by blast
qed

text \<open>
  C5. For an inventory of \<open>N\<close> records, a minting loop that runs to its end submits
  \<open>ceil(N/10)\<close> mints, in this order: mint \<open>k\<close> carries the payloads of the indices
  from \<open>10 k\<close> up to \<open>min (10 k + 10) N\<close>. These index ranges, one after the other,
  are \<open>0, ..., N - 1\<close>, and each has between 1 and 10 indices; for 25 records their
  sizes are 10, 10 and 5. When no deletion flag is true the loop submits no burn.
\<close>

theorem batches_partition_inventory:
  assumes "length (serials arr) \<le> length (metadata arr)"
    and "status (mint_loop L newToken arr 0 w) = Running"
  shows "filter is_mint (executed (mint_loop L newToken arr 0 w)) =
           filter is_mint (executed w) @
             map (\<lambda>k. TokenMintTransaction newToken (batch_payload arr (k * batchSize)))
               [0 ..< (length (serials arr) + 9) div 10]
         \<and> concat (map (\<lambda>k. batch_indices (length (serials arr)) (k * batchSize))
               [0 ..< (length (serials arr) + 9) div 10]) = [0 ..< length (serials arr)]
         \<and> (\<forall>k < (length (serials arr) + 9) div 10.
               length (batch_indices (length (serials arr)) (k * batchSize)) \<le> 10
               \<and> 0 < length (batch_indices (length (serials arr)) (k * batchSize)))
         \<and> (length (serials arr) = 25 \<longrightarrow>
               map (\<lambda>k. length (batch_indices (length (serials arr)) (k * batchSize)))
                 [0 ..< (length (serials arr) + 9) div 10] = [10, 10, 5])
         \<and> ((\<forall>d\<in>set (deleteIds arr). \<not> d) \<longrightarrow>
               filter is_burn (executed (mint_loop L newToken arr 0 w)) = filter is_burn (executed w))"
proof -
  have a: "filter is_mint (executed (mint_loop L newToken arr 0 w)) =
           filter is_mint (executed w) @
             map (\<lambda>k. TokenMintTransaction newToken (batch_payload arr (k * batchSize)))
               [0 ..< (length (serials arr) + 9) div 10]"
    using mints_mint_loop[OF assms] by simp
  have b: "concat (map (\<lambda>k. batch_indices (length (serials arr)) (k * batchSize))
               [0 ..< (length (serials arr) + 9) div 10]) = [0 ..< length (serials arr)]"
    using batches_cover[of "length (serials arr)" 0] by simp
  have c: "length (serials arr) = 25 \<longrightarrow>
               map (\<lambda>k. length (batch_indices (length (serials arr)) (k * batchSize)))
                 [0 ..< (length (serials arr) + 9) div 10] = [10, 10, 5]"
    by (simp add: batch_indices_def batchSize_def upt_rec)
  show ?thesis
    using a b c batch_size[of _ "length (serials arr)"] burns_mint_loop[OF assms(1), of L newToken 0 w]
    by blast
qed

text \<open>C5, at an example.\<close>

theorem batches_partition_inventory_witness:
  "filter is_mint (executed (mint_loop testnet ''0.0.5005'' inventory25 0 initial_world)) =
     [TokenMintTransaction ''0.0.5005'' (replicate 10 [104, 105]),
      TokenMintTransaction ''0.0.5005'' (replicate 10 [104, 105]),
      TokenMintTransaction ''0.0.5005'' (replicate 5 [104, 105])]
   \<and> map (\<lambda>k. length (batch_indices 25 (k * batchSize))) [0 ..< 3] = [10, 10, 5]
   \<and> filter is_burn (executed (mint_loop testnet ''0.0.5005'' inventory25 0 initial_world)) = []"
proof -
  have l: "length (serials inventory25) \<le> length (metadata inventory25)"
    and n: "length (serials inventory25) = 25"
    and d: "\<forall>d\<in>set (deleteIds inventory25). \<not> d"
    by (simp_all add: inventory25_def)
  have s: "status (mint_loop testnet ''0.0.5005'' inventory25 0 initial_world) = Running"
    by (rule mint_loop_testnet[OF l d]) (simp add: initial_world_def)
  have p: "batch_payload inventory25 0 = replicate 10 [104, 105]"
     "batch_payload inventory25 10 = replicate 10 [104, 105]"
     "batch_payload inventory25 20 = replicate 5 [104, 105]"
    by code_simp+
  have u: "[0 ..< (3::nat)] = [0, 1, 2]" by (simp add: upt_rec)
  show ?thesis
    using batches_partition_inventory[OF l s] d
    by (simp add: n u p batchSize_def initial_world_def del: replicate.simps)
qed

text \<open>
  C6. When the inventory loop of \<^verbatim>\<open>migrate_nfts\<close> returns the records \<open>rs\<close>, in the order
  received, the reversed inventory holds the records in the reverse order, in each of its
  three sequences. The steps after the creation return, and when \<open>rs\<close> is not empty the
  first transaction they execute is a mint on the new token whose first payload is the
  metadata of the last record received. When they run to their end, the payloads of the
  mints on the new token that they add are, in order, those of the records in the reverse
  of the order received.
\<close>

theorem reversal_restores_mint_order:
  assumes "fetch_loop M (''/api/v1/tokens/'' @ token @ ''/nfts?limit=100'') empty_inventory w
             = Some (arr, w1)"
    and "received rs arr"
  shows "received (rev rs) (reverse_inventory arr)
         \<and> (\<exists>out w'. migrate_nfts M L token newToken strOutput w = Some (out, w')
               \<and> (rs \<noteq> [] \<longrightarrow>
                    (\<exists>payload. executed w' ! length (executed w)
                                 = TokenMintTransaction newToken payload
                       \<and> hd payload
                           = Buffer_from (toString_utf8 (Buffer_from_base64 (nft_metadata (last rs))))))
               \<and> (status w' = Running \<longrightarrow>
                    mint_payloads newToken (executed w')
                      = mint_payloads newToken (executed w)
                        @ map (\<lambda>r. Buffer_from (toString_utf8 (Buffer_from_base64 (nft_metadata r))))
                            (rev rs)))"
proof -
  let ?arr = "reverse_inventory arr"
  let ?w2 = "log (console_log (''Found '' @ show_nat (length (serials arr)) @ '' NFTs to migrate'')) w1"
  let ?w3 = "mint_loop L newToken ?arr 0 ?w2"
  have r: "received (rev rs) ?arr" by (rule received_rev[OF assms(2)])
  then have l: "length (serials ?arr) \<le> length (metadata ?arr)"
    and n: "length (serials ?arr) = length rs"
    and m: "metadata ?arr = map (\<lambda>r. toString_utf8 (Buffer_from_base64 (nft_metadata r))) (rev rs)"
    by (simp_all add: received_def)
  have ex: "executed ?w2 = executed w"
    using fetch_loop_frame[OF assms(1)] by (simp add: executed_log)
  have mg: "migrate_nfts M L token newToken strOutput w
              = Some (if status ?w3 = Running
                      then strOutput @ [''Mainnet Token '' @ token @ '' migrated to Testnet '' @ newToken]
                      else strOutput, ?w3)"
    using assms(1) by (simp add: migrate_nfts_def Let_def)
  have first: "rs \<noteq> [] \<longrightarrow>
                 (\<exists>payload. executed ?w3 ! length (executed w) = TokenMintTransaction newToken payload
                    \<and> hd payload
                        = Buffer_from (toString_utf8 (Buffer_from_base64 (nft_metadata (last rs)))))"
  proof
    assume ne: "rs \<noteq> []"
    then have pos: "0 < length (serials ?arr)" using n by simp
    have u: "[0 ..< min (0 + batchSize) (length rs)] = 0 # [1 ..< min (0 + batchSize) (length rs)]"
      using ne by (simp add: upt_conv_Cons batchSize_def)
    have h: "hd (batch_payload ?arr 0)
               = Buffer_from (toString_utf8 (Buffer_from_base64 (nft_metadata (last rs))))"
      unfolding batch_payload_def batch_indices_def n u m using ne
      by (simp add: hd_conv_nth[symmetric] hd_map hd_rev)
    have "executed ?w3 ! length (executed w) = TokenMintTransaction newToken (batch_payload ?arr 0)"
      using first_mint[OF l pos, of L newToken ?w2] unfolding ex .
    then show "\<exists>payload. executed ?w3 ! length (executed w) = TokenMintTransaction newToken payload
                    \<and> hd payload
                        = Buffer_from (toString_utf8 (Buffer_from_base64 (nft_metadata (last rs))))"
      using h by blast
  qed
  have all: "status ?w3 = Running \<longrightarrow>
               mint_payloads newToken (executed ?w3)
                 = mint_payloads newToken (executed w)
                   @ map (\<lambda>r. Buffer_from (toString_utf8 (Buffer_from_base64 (nft_metadata r)))) (rev rs)"
    using mint_payloads_all[OF r, of L newToken ?w2] unfolding ex by blast
  show ?thesis using r mg first all by blast
qed

text \<open>C6, at an example.\<close>

theorem reversal_restores_mint_order_witness:
  "received [nft_ff, nft_hi]
     (reverse_inventory (push_nft (push_nft empty_inventory nft_hi) nft_ff))
   \<and> (\<exists>out w'. migrate_nfts mirror_pair testnet ''0.0.111'' ''0.0.5005'' [] initial_world = Some (out, w')
         \<and> status w' = Running
         \<and> (\<exists>payload. executed w' ! 0 = TokenMintTransaction ''0.0.5005'' payload
                \<and> hd payload = [239, 191, 189])
         \<and> mint_payloads ''0.0.5005'' (executed w') = [[239, 191, 189], [104, 105]])"
proof -
  let ?arr = "push_nft (push_nft empty_inventory nft_hi) nft_ff"
  let ?w1 = "initial_world\<lparr>gets := gets initial_world + 1\<rparr>"
  let ?w3 = "mint_loop testnet ''0.0.5005'' (reverse_inventory ?arr) 0
               (log (console_log (''Found '' @ show_nat (length (serials ?arr)) @ '' NFTs to migrate'')) ?w1)"
  have f: "fetch_loop mirror_pair (''/api/v1/tokens/'' @ ''0.0.111'' @ ''/nfts?limit=100'')
             empty_inventory initial_world
           = Some (?arr, ?w1)"
    by (subst fetch_loop.simps) (simp add: fetch_page_def mirror_pair_def Let_def)
  have r: "received [nft_hi, nft_ff] ?arr"
    using received_push[OF received_push[OF received_empty, of nft_hi], of nft_ff] by simp
  have l: "length (serials (reverse_inventory ?arr)) \<le> length (metadata (reverse_inventory ?arr))"
    using received_rev[OF r] by (simp add: received_def)
  have run: "status ?w3 = Running"
    by (rule mint_loop_testnet_running[OF l]) (simp add: log_def initial_world_def)
  have m: "migrate_nfts mirror_pair testnet ''0.0.111'' ''0.0.5005'' [] initial_world
             = Some ([''Mainnet Token 0.0.111 migrated to Testnet 0.0.5005''], ?w3)"
    unfolding migrate_nfts_def f option.case prod.case Let_def using run by simp
  have v: "Buffer_from_base64 ''aGk='' = [104, 105]"
    by (simp add: Buffer_from_base64_def List.map_filter_def unbase64_def)
  have g: "Buffer_from_base64 ''/w=='' = [255]"
    by (simp add: Buffer_from_base64_def List.map_filter_def unbase64_def)
  have e1: "Buffer_from [65533] = [239, 191, 189]"
    by (simp add: Buffer_from_def utf8_encode_cp_def)
  have e2: "Buffer_from [104, 105] = [104, 105]"
    by (simp add: Buffer_from_def utf8_encode_cp_def)
  show ?thesis
    using reversal_restores_mint_order[OF f r, of testnet "''0.0.5005''" "[]"] run
    unfolding m
    by (simp add: initial_world_def nft_hi_def nft_ff_def v g e1 e2)
qed

text \<open>
  C7. The three sequences always hold the records received so far, in order: they have
  one length, and the entries at an index come from one record. This holds for the empty
  inventory, is kept by each push, by each turn of the page loop (a page or a failure), by
  the whole loop, and by the reversal.
\<close>

theorem parallel_sequences_aligned:
  "received [] empty_inventory
   \<and> (received rs arr \<longrightarrow>
        length (serials arr) = length rs \<and> length (metadata arr) = length rs
        \<and> length (deleteIds arr) = length rs)
   \<and> (received rs arr \<longrightarrow> received (rs @ [r]) (push_nft arr r))
   \<and> (received rs arr \<longrightarrow> nfts_page M (gets w) (MIRROR_NODE @ route) = Inr p \<longrightarrow>
        received (rs @ nfts p) (fst (snd (fetch_page M route arr w))))
   \<and> (received rs arr \<longrightarrow> nfts_page M (gets w) (MIRROR_NODE @ route) = Inl err \<longrightarrow>
        received rs (fst (snd (fetch_page M route arr w))))
   \<and> (fetch_loop M route empty_inventory w = Some (arr', w') \<longrightarrow> (\<exists>rs'. received rs' arr'))
   \<and> (received rs arr \<longrightarrow> received (rev rs) (reverse_inventory arr))"
proof -
  have a: "fetch_loop M route empty_inventory w = Some (arr', w') \<longrightarrow> (\<exists>rs'. received rs' arr')"
  proof
    assume f: "fetch_loop M route empty_inventory w = Some (arr', w')"
    from received_loop[OF f] received_empty obtain ps where "received ([] @ ps) (fst (arr', w'))"
      by blast
    then show "\<exists>rs'. received rs' arr'" by auto
  qed
  have b: "received rs arr \<longrightarrow> nfts_page M (gets w) (MIRROR_NODE @ route) = Inr p \<longrightarrow>
        received (rs @ nfts p) (fst (snd (fetch_page M route arr w)))"
    by (simp add: fetch_page_def received_foldl)
  have c: "received rs arr \<longrightarrow> nfts_page M (gets w) (MIRROR_NODE @ route) = Inl err \<longrightarrow>
        received rs (fst (snd (fetch_page M route arr w)))"
    by (simp add: fetch_page_def)
  show ?thesis
    using a b c received_empty received_lengths[of rs arr] received_push[of rs arr r]
      received_rev[of rs arr]
    by blast
qed

text \<open>C7, at an example.\<close>

theorem parallel_sequences_aligned_witness:
  "received [nft_ff] (push_nft empty_inventory nft_ff)
   \<and> received [nft_ff, nft_hi] (push_nft (push_nft empty_inventory nft_ff) nft_hi)
   \<and> length (serials (push_nft empty_inventory nft_ff)) = 1
   \<and> length (metadata (push_nft empty_inventory nft_ff)) = 1
   \<and> length (deleteIds (push_nft empty_inventory nft_ff)) = 1
   \<and> received [nft_ff] (reverse_inventory (push_nft empty_inventory nft_ff))"
proof -
  have r0: "received [] empty_inventory"
    using parallel_sequences_aligned by blast
  have r1: "received [nft_ff] (push_nft empty_inventory nft_ff)"
    using parallel_sequences_aligned[where rs = "[]" and arr = empty_inventory and r = nft_ff] r0
    by simp
  have r2: "received [nft_ff, nft_hi] (push_nft (push_nft empty_inventory nft_ff) nft_hi)"
    using parallel_sequences_aligned[where rs = "[nft_ff]"
        and arr = "push_nft empty_inventory nft_ff" and r = nft_hi] r1
    by simp
  show ?thesis
    using parallel_sequences_aligned[where rs = "[nft_ff]"
        and arr = "push_nft empty_inventory nft_ff"] r1 r2
    by simp
qed

text \<open>
  C8. When the lookup of a token fails, or its descriptor has a type other than
  \<^verbatim>\<open>NON_FUNGIBLE_UNIQUE\<close>, the migration of that token only makes the lookup request
  and writes diagnostics to the error console: no transaction is executed, the result
  lines are unchanged, and the loop goes on with the rest of the token list.
\<close>

theorem unsupported_token_is_skipped:
  assumes "status w = Running"
  shows "(token_info M (gets w) (MIRROR_NODE @ ''/api/v1/tokens/'' @ token) = Inl err \<longrightarrow>
            migrate_token cfg M L token strOutput w
              = Some (strOutput,
                  log (console_error (''Token '' @ token @ '' not found on mirror node''))
                    (log (console_error_obj err) (w\<lparr>gets := gets w + 1\<rparr>)))
            \<and> map_option (executed \<circ> snd) (migrate_token cfg M L token strOutput w)
              = Some (executed w)
            \<and> token_loop cfg M L (token # rest) strOutput w
              = token_loop cfg M L rest strOutput
                  (log (console_error (''Token '' @ token @ '' not found on mirror node''))
                    (log (console_error_obj err) (w\<lparr>gets := gets w + 1\<rparr>))))
         \<and> (token_info M (gets w) (MIRROR_NODE @ ''/api/v1/tokens/'' @ token) = Inr tokenDetails
              \<and> type tokenDetails \<noteq> ''NON_FUNGIBLE_UNIQUE'' \<longrightarrow>
            migrate_token cfg M L token strOutput w
              = Some (strOutput,
                  log (console_error (''Token '' @ token
                         @ '' is not an NFT. Only NFTs are not supported for migration''))
                    (w\<lparr>gets := gets w + 1\<rparr>))
            \<and> map_option (executed \<circ> snd) (migrate_token cfg M L token strOutput w)
              = Some (executed w)
            \<and> token_loop cfg M L (token # rest) strOutput w
              = token_loop cfg M L rest strOutput
                  (log (console_error (''Token '' @ token
                         @ '' is not an NFT. Only NFTs are not supported for migration''))
                    (w\<lparr>gets := gets w + 1\<rparr>)))"
  using assms
  by (simp add: migrate_token_def getTokenDetails_def Let_def log_def)

text \<open>C8, at an example.\<close>

theorem unsupported_token_is_skipped_witness:
  "migrate_token cfg_ok mirror_down testnet ''0.0.111'' [] initial_world
     = Some ([], log (console_error (''Token '' @ ''0.0.111'' @ '' not found on mirror node''))
                   (log (console_error_obj (RequestError ''ECONNREFUSED''))
                      (initial_world\<lparr>gets := gets initial_world + 1\<rparr>)))
   \<and> token_loop cfg_ok mirror_down testnet [''0.0.111'', ''0.0.112''] [] initial_world
     = token_loop cfg_ok mirror_down testnet [''0.0.112''] []
         (log (console_error (''Token '' @ ''0.0.111'' @ '' not found on mirror node''))
            (log (console_error_obj (RequestError ''ECONNREFUSED''))
               (initial_world\<lparr>gets := gets initial_world + 1\<rparr>)))
   \<and> migrate_token cfg_ok mirror_foo testnet ''0.0.999'' [] initial_world
     = Some ([], log (console_error (''Token '' @ ''0.0.999'' @ '' not found on mirror node''))
                   (log (console_error_obj (StatusError ''404''))
                      (initial_world\<lparr>gets := gets initial_world + 1\<rparr>)))
   \<and> map_option (executed \<circ> snd) (migrate_token cfg_ok mirror_foo testnet ''0.0.999'' [] initial_world)
     = Some (executed initial_world)"
proof -
  have s: "status initial_world = Running" by (simp add: initial_world_def)
  have a: "token_info mirror_down (gets initial_world) (MIRROR_NODE @ ''/api/v1/tokens/'' @ ''0.0.111'')
             = Inl (RequestError ''ECONNREFUSED'')"
    by (simp add: mirror_down_def)
  have b: "token_info mirror_foo (gets initial_world) (MIRROR_NODE @ ''/api/v1/tokens/'' @ ''0.0.999'')
             = Inl (StatusError ''404'')"
    by (simp add: mirror_foo_def)
  show ?thesis
    using unsupported_token_is_skipped[OF s, where M = mirror_down and token = "''0.0.111''"
        and err = "RequestError ''ECONNREFUSED''" and cfg = cfg_ok and L = testnet
        and strOutput = "[]" and rest = "[''0.0.112'']"] a
      unsupported_token_is_skipped[OF s, where M = mirror_foo and token = "''0.0.999''"
        and err = "StatusError ''404''" and cfg = cfg_ok and L = testnet
        and strOutput = "[]" and rest = "[]"] b
    by blast
qed

text \<open>
  C9, as the code has it. The creation request has supply type finite exactly when
  \<^verbatim>\<open>Number(max_supply)\<close> is greater than 0, and its maximum is then that number, the
  double nearest to the value written in the descriptor; this is the descriptor's value
  itself when \<^verbatim>\<open>max_supply\<close> is a string of decimal digits whose value is at most 2^53.
  Otherwise the supply type is infinite and no maximum is set, as for \<^verbatim>\<open>"0"\<close>, an absent
  field and a string that is no number. For a token of the NFT type whose creation is
  confirmed and whose first inventory page is empty and the last one, the only transaction
  is the creation, and the line \<^verbatim>\<open>Mainnet Token <source> migrated to Testnet <newId>\<close>
  is appended to the result. More generally, whenever the inventory loop ends with no
  record, the steps after the creation execute no transaction and append that line.
\<close>

theorem supply_type_and_empty_inventory:
  "supplyType (tokenCreateTx cfg tokenDetails)
     = Some (if js_gt0 (Number_js (max_supply tokenDetails)) then Finite else Infinite)
   \<and> maxSupply (tokenCreateTx cfg tokenDetails)
     = (if js_gt0 (Number_js (max_supply tokenDetails))
        then Some (Number_js (max_supply tokenDetails)) else None)
   \<and> (max_supply tokenDetails = JStr ds \<and> ds \<noteq> [] \<and> list_all is_digit ds
        \<and> 0 < digits_value ds \<and> digits_value ds \<le> 2 ^ 53
        \<longrightarrow> supplyType (tokenCreateTx cfg tokenDetails) = Some Finite
            \<and> maxSupply (tokenCreateTx cfg tokenDetails) = Some (Num (int (digits_value ds)) 0))
   \<and> (max_supply tokenDetails = JStr ''0'' \<or> max_supply tokenDetails = JUndefined
        \<or> max_supply tokenDetails = JStr ''unlimited''
        \<longrightarrow> supplyType (tokenCreateTx cfg tokenDetails) = Some Infinite
            \<and> maxSupply (tokenCreateTx cfg tokenDetails) = None)
   \<and> (status w = Running
        \<and> token_info M (gets w) (MIRROR_NODE @ ''/api/v1/tokens/'' @ token) = Inr tokenDetails
        \<and> type tokenDetails = ''NON_FUNGIBLE_UNIQUE''
        \<and> L (executed w) (TokenCreateTransaction (tokenCreateTx cfg tokenDetails)) = Receipt createTokenRx
        \<and> nfts_page M (gets w + 1) (MIRROR_NODE @ ''/api/v1/tokens/'' @ token @ ''/nfts?limit=100'')
             = Inr \<lparr>nfts = [], links_next = None\<rparr>
        \<longrightarrow> (\<exists>w'. migrate_token cfg M L token strOutput w
                   = Some (strOutput @ [''Mainnet Token '' @ token @ '' migrated to Testnet ''
                                          @ rx_tokenId createTokenRx], w')
                 \<and> executed w' = executed w @ [TokenCreateTransaction (tokenCreateTx cfg tokenDetails)]
                 \<and> status w' = Running))
   \<and> (status w = Running
        \<and> fetch_loop M (''/api/v1/tokens/'' @ token @ ''/nfts?limit=100'') empty_inventory w
             = Some (arr, w1)
        \<and> serials arr = []
        \<longrightarrow> (\<exists>w'. migrate_nfts M L token newToken strOutput w
                   = Some (strOutput @ [''Mainnet Token '' @ token @ '' migrated to Testnet ''
                                          @ newToken], w')
                 \<and> executed w' = executed w \<and> status w' = Running))"
proof -
  have a: "supplyType (tokenCreateTx cfg tokenDetails)
     = Some (if js_gt0 (Number_js (max_supply tokenDetails)) then Finite else Infinite)"
    by (simp add: tokenCreateTx_def Let_def split: option.splits)
  have b: "maxSupply (tokenCreateTx cfg tokenDetails)
     = (if js_gt0 (Number_js (max_supply tokenDetails))
        then Some (Number_js (max_supply tokenDetails)) else None)"
    by (simp add: tokenCreateTx_def Let_def split: option.splits)
  have x: "max_supply tokenDetails = JStr ds \<and> ds \<noteq> [] \<and> list_all is_digit ds
        \<and> 0 < digits_value ds \<and> digits_value ds \<le> 2 ^ 53
        \<longrightarrow> supplyType (tokenCreateTx cfg tokenDetails) = Some Finite
            \<and> maxSupply (tokenCreateTx cfg tokenDetails) = Some (Num (int (digits_value ds)) 0)"
  proof
    assume h: "max_supply tokenDetails = JStr ds \<and> ds \<noteq> [] \<and> list_all is_digit ds
        \<and> 0 < digits_value ds \<and> digits_value ds \<le> 2 ^ 53"
    then have "Number_js (max_supply tokenDetails) = Num (int (digits_value ds)) 0"
      using digits_number[of ds] by simp
    then show "supplyType (tokenCreateTx cfg tokenDetails) = Some Finite
            \<and> maxSupply (tokenCreateTx cfg tokenDetails) = Some (Num (int (digits_value ds)) 0)"
      unfolding a b using h by simp
  qed
  have c: "max_supply tokenDetails = JStr ''0'' \<or> max_supply tokenDetails = JUndefined
        \<or> max_supply tokenDetails = JStr ''unlimited''
        \<longrightarrow> supplyType (tokenCreateTx cfg tokenDetails) = Some Infinite
            \<and> maxSupply (tokenCreateTx cfg tokenDetails) = None"
    unfolding a b using number_0 number_unlimited by auto
  have d: "status w = Running
        \<and> token_info M (gets w) (MIRROR_NODE @ ''/api/v1/tokens/'' @ token) = Inr tokenDetails
        \<and> type tokenDetails = ''NON_FUNGIBLE_UNIQUE''
        \<and> L (executed w) (TokenCreateTransaction (tokenCreateTx cfg tokenDetails)) = Receipt createTokenRx
        \<and> nfts_page M (gets w + 1) (MIRROR_NODE @ ''/api/v1/tokens/'' @ token @ ''/nfts?limit=100'')
             = Inr \<lparr>nfts = [], links_next = None\<rparr>
        \<longrightarrow> (\<exists>w'. migrate_token cfg M L token strOutput w
                   = Some (strOutput @ [''Mainnet Token '' @ token @ '' migrated to Testnet ''
                                          @ rx_tokenId createTokenRx], w')
                 \<and> executed w' = executed w @ [TokenCreateTransaction (tokenCreateTx cfg tokenDetails)]
                 \<and> status w' = Running)"
    by (simp add: migrate_token_def getTokenDetails_def Let_def log_def migrate_nfts_def
        fetch_loop.simps fetch_page_def empty_inventory_def reverse_inventory_def mint_loop_empty)
  have e: "status w = Running
        \<and> fetch_loop M (''/api/v1/tokens/'' @ token @ ''/nfts?limit=100'') empty_inventory w
             = Some (arr, w1)
        \<and> serials arr = []
        \<longrightarrow> (\<exists>w'. migrate_nfts M L token newToken strOutput w
                   = Some (strOutput @ [''Mainnet Token '' @ token @ '' migrated to Testnet ''
                                          @ newToken], w')
                 \<and> executed w' = executed w \<and> status w' = Running)"
    using migrate_nfts_empty[of w M token arr w1 L newToken strOutput] by blast
  show ?thesis using a b x c d e by blast
qed

text \<open>C9, at examples.\<close>

theorem supply_type_and_empty_inventory_witness:
  "supplyType (tokenCreateTx cfg_ok foo_details) = Some Infinite
   \<and> maxSupply (tokenCreateTx cfg_ok foo_details) = None
   \<and> supplyType (tokenCreateTx cfg_ok capped_details) = Some Finite
   \<and> maxSupply (tokenCreateTx cfg_ok capped_details) = Some (Num 5000 0)
   \<and> (\<exists>w'. migrate_token cfg_ok mirror_foo testnet ''0.0.111'' [] initial_world
              = Some ([''Mainnet Token '' @ ''0.0.111'' @ '' migrated to Testnet '' @ ''0.0.5005''], w')
            \<and> executed w' = [TokenCreateTransaction (tokenCreateTx cfg_ok foo_details)]
            \<and> status w' = Running)
   \<and> (\<exists>w'. migrate_nfts mirror_foo testnet ''0.0.111'' ''0.0.5005'' [] initial_world
              = Some ([''Mainnet Token '' @ ''0.0.111'' @ '' migrated to Testnet '' @ ''0.0.5005''], w')
            \<and> executed w' = [] \<and> status w' = Running)"
proof -
  have h: "status initial_world = Running
        \<and> token_info mirror_foo (gets initial_world) (MIRROR_NODE @ ''/api/v1/tokens/'' @ ''0.0.111'') = Inr foo_details
        \<and> type foo_details = ''NON_FUNGIBLE_UNIQUE''
        \<and> testnet (executed initial_world) (TokenCreateTransaction (tokenCreateTx cfg_ok foo_details))
            = Receipt \<lparr>rx_tokenId = ''0.0.5005'', rx_serials = [], rx_status = ''SUCCESS''\<rparr>
        \<and> nfts_page mirror_foo (gets initial_world + 1) (MIRROR_NODE @ ''/api/v1/tokens/'' @ ''0.0.111'' @ ''/nfts?limit=100'')
             = Inr \<lparr>nfts = [], links_next = None\<rparr>"
    by (simp add: initial_world_def mirror_foo_def foo_details_def testnet_def)
  have f: "status initial_world = Running
        \<and> fetch_loop mirror_foo (''/api/v1/tokens/'' @ ''0.0.111'' @ ''/nfts?limit=100'') empty_inventory
              initial_world
            = Some (empty_inventory, initial_world\<lparr>gets := gets initial_world + 1\<rparr>)
        \<and> serials empty_inventory = []"
    by (subst fetch_loop.simps)
       (simp add: fetch_page_def mirror_foo_def Let_def initial_world_def empty_inventory_def)
  have m: "max_supply foo_details = JStr ''0''" by (simp add: foo_details_def)
  have c: "max_supply capped_details = JStr ''5000'' \<and> ''5000'' \<noteq> [] \<and> list_all is_digit ''5000''
        \<and> 0 < digits_value ''5000'' \<and> digits_value ''5000'' \<le> 2 ^ 53"
    by (simp add: capped_details_def is_digit_def digits_value_def)
  have v: "int (digits_value ''5000'') = 5000" by (simp add: digits_value_def)
  have e: "executed initial_world = []" by (simp add: initial_world_def)
  have one: "supplyType (tokenCreateTx cfg_ok foo_details) = Some Infinite
   \<and> maxSupply (tokenCreateTx cfg_ok foo_details) = None
   \<and> (\<exists>w'. migrate_token cfg_ok mirror_foo testnet ''0.0.111'' [] initial_world
              = Some ([''Mainnet Token '' @ ''0.0.111'' @ '' migrated to Testnet '' @ ''0.0.5005''], w')
            \<and> executed w' = [TokenCreateTransaction (tokenCreateTx cfg_ok foo_details)]
            \<and> status w' = Running)
   \<and> (\<exists>w'. migrate_nfts mirror_foo testnet ''0.0.111'' ''0.0.5005'' [] initial_world
              = Some ([''Mainnet Token '' @ ''0.0.111'' @ '' migrated to Testnet '' @ ''0.0.5005''], w')
            \<and> executed w' = [] \<and> status w' = Running)"
    using supply_type_and_empty_inventory[where cfg = cfg_ok and tokenDetails = foo_details
        and w = initial_world and M = mirror_foo and token = "''0.0.111''" and L = testnet
        and createTokenRx = "\<lparr>rx_tokenId = ''0.0.5005'', rx_serials = [], rx_status = ''SUCCESS''\<rparr>"
        and strOutput = "[]" and arr = empty_inventory
        and ?w1.0 = "initial_world\<lparr>gets := gets initial_world + 1\<rparr>"
        and newToken = "''0.0.5005''"] h f m
    by (simp add: e number_0)
  have two: "supplyType (tokenCreateTx cfg_ok capped_details) = Some Finite
   \<and> maxSupply (tokenCreateTx cfg_ok capped_details) = Some (Num 5000 0)"
    using supply_type_and_empty_inventory[where cfg = cfg_ok and tokenDetails = capped_details
        and ds = "''5000''"] c
    unfolding v by blast
  show ?thesis using one two by blast
qed

text \<open>
  C9 as stated fails: for a descriptor whose maximum supply is 2^53 + 1 the supply type is
  finite, and the maximum of the request is 2^53, not the source's.
\<close>

theorem supply_type_counterexample:
  "max_supply big_details = JStr ''9007199254740993''
   \<and> digits_value ''9007199254740993'' = 9007199254740993
   \<and> supplyType (tokenCreateTx cfg_ok big_details) = Some Finite
   \<and> maxSupply (tokenCreateTx cfg_ok big_details) = Some (Num 9007199254740992 0)
   \<and> maxSupply (tokenCreateTx cfg_ok big_details) \<noteq> Some (Num 9007199254740993 0)"
proof -
  have m: "max_supply big_details = JStr ''9007199254740993''" by (simp add: big_details_def)
  have n: "Number_js (max_supply big_details) = Num 9007199254740992 0"
    unfolding m using number_9007199254740993 by simp
  have a: "supplyType (tokenCreateTx cfg_ok big_details) = Some Finite"
    unfolding tokenCreateTx_def Let_def n by (simp add: big_details_def)
  have b: "maxSupply (tokenCreateTx cfg_ok big_details) = Some (Num 9007199254740992 0)"
    unfolding tokenCreateTx_def Let_def n by (simp add: big_details_def)
  show ?thesis using m a b digits_9007199254740993 by simp
qed

text \<open>
  C10. Splitting any argument string at the commas gives at least one piece, and the empty
  string gives the one empty piece. So with an argument present (and no \<^verbatim>\<open>-h\<close>) main
  never takes the branch that throws \<^verbatim>\<open>Token list is empty\<close>: it is the loop over the
  pieces and the final report. For the empty string that loop is the migration of the
  token named by the empty string.
\<close>

theorem token_list_is_never_empty:
  "1 \<le> length (js_split CHR '','' arg)
   \<and> js_split CHR '','' [] = [[]]
   \<and> (''-h'' \<notin> set argv \<and> argv2 argv = Some arg \<longrightarrow>
        main e cfg argv M L w
          = (case token_loop cfg M L (js_split CHR '','' arg) []
                    (if \<not> truthy (SUPPLY_KEY_var e)
                     then saveKeyToFile (js_split CHR '','' arg)
                            (log (console_log ''No supply key provided. Generating a new one and saving it to file'') w)
                     else w) of
               None \<Rightarrow> None
             | Some (strOutput, w2) \<Rightarrow>
                 if status w2 = Running
                 then Some (log (console_log (js_join [CHR 0x0A] strOutput))
                             (log (console_log ''Migration complete'') w2))
                 else Some w2))
   \<and> token_loop cfg M L (js_split CHR '','' []) strOutput w = migrate_token cfg M L [] strOutput w"
proof -
  have n: "length (js_split CHR '','' arg) \<noteq> 0" using js_split_nonempty[of "CHR '',''" arg] by simp
  have a: "''-h'' \<notin> set argv \<and> argv2 argv = Some arg \<longrightarrow>
        main e cfg argv M L w
          = (case token_loop cfg M L (js_split CHR '','' arg) []
                    (if \<not> truthy (SUPPLY_KEY_var e)
                     then saveKeyToFile (js_split CHR '','' arg)
                            (log (console_log ''No supply key provided. Generating a new one and saving it to file'') w)
                     else w) of
               None \<Rightarrow> None
             | Some (strOutput, w2) \<Rightarrow>
                 if status w2 = Running
                 then Some (log (console_log (js_join [CHR 0x0A] strOutput))
                             (log (console_log ''Migration complete'') w2))
                 else Some w2)"
    using n by (simp add: main_def Let_def)
  have b: "token_loop cfg M L (js_split CHR '','' []) strOutput w = migrate_token cfg M L [] strOutput w"
    by (cases "migrate_token cfg M L [] strOutput w") auto
  have c: "1 \<le> length (js_split CHR '','' arg)"
    using n by (cases "js_split CHR '','' arg") simp_all
  show ?thesis using a b c by simp
qed

text \<open>C10, at an example.\<close>

theorem token_list_is_never_empty_witness:
  "1 \<le> length (js_split CHR '','' ''0.0.111,0.0.112'')
   \<and> js_split CHR '','' ''0.0.111,0.0.112'' = [''0.0.111'', ''0.0.112'']
   \<and> main env_ok cfg_ok [''node'', ''migrateToken.js'', []] mirror_down testnet initial_world
       = Some (log (console_log [])
                (log (console_log ''Migration complete'')
                  (log (console_error ''Token  not found on mirror node'')
                    (log (console_error_obj (RequestError ''ECONNREFUSED''))
                      (initial_world\<lparr>gets := 1\<rparr>)))))"
proof -
  have h: "''-h'' \<notin> set [''node'', ''migrateToken.js'', []]
           \<and> argv2 [''node'', ''migrateToken.js'', []] = Some []"
    by (simp add: argv2_def)
  have t: "truthy (SUPPLY_KEY_var env_ok)"
    by (simp add: truthy_def env_ok_def supply_key_text_def)
  have m: "migrate_token cfg_ok mirror_down testnet [] [] initial_world
     = Some ([], log (console_error ''Token  not found on mirror node'')
                    (log (console_error_obj (RequestError ''ECONNREFUSED''))
                      (initial_world\<lparr>gets := 1\<rparr>)))"
    by (simp add: migrate_token_def getTokenDetails_def mirror_down_def Let_def initial_world_def)
  have s: "js_split CHR '','' ''0.0.111,0.0.112'' = [''0.0.111'', ''0.0.112'']" by simp
  have "main env_ok cfg_ok [''node'', ''migrateToken.js'', []] mirror_down testnet initial_world
       = Some (log (console_log [])
                (log (console_log ''Migration complete'')
                  (log (console_error ''Token  not found on mirror node'')
                    (log (console_error_obj (RequestError ''ECONNREFUSED''))
                      (initial_world\<lparr>gets := 1\<rparr>)))))"
    using token_list_is_never_empty[where arg = "[]"
        and argv = "[''node'', ''migrateToken.js'', []]" and e = env_ok and cfg = cfg_ok
        and M = mirror_down and L = testnet and w = initial_world and strOutput = "[]"] h t
    by (simp only: m) (simp add: log_def initial_world_def)
  then show ?thesis using s by simp
qed

end
